theory Spec2Isabelle
  imports Complex_Main
begin

section \<open>The buoycam fetcher: a shallow embedding of \<^verbatim>\<open>buoycam_fetcher.py\<close>\<close>

text \<open>
  The Python functions of \<^verbatim>\<open>src/buoycam_fetcher.py\<close> are translated one by one. An
  exception is a value \<open>Inl e\<close> of a sum type, a function that writes files takes the
  file system and returns the new one, a loop is a recursive function over the list it
  walks, and what the program asks of its libraries and of the network (HTTP, the image
  decoder, the text recogniser, \<^verbatim>\<open>float()\<close> and the printing of floats) is a parameter.

  Conventions of the model:
  \<^item> text is ASCII: a \<open>string\<close> is its list of characters;
  \<^item> a Python \<^verbatim>\<open>float\<close> is a \<open>real\<close>: arithmetic is exact, and infinities and
    NaN are not represented;
  \<^item> logging, the rate limiter's sleep and the scheduling of the worker pool have no
    effect on the values computed and are left out; the tasks of one phase run in the
    order of their submission.
\<close>

subsection \<open>Exceptions\<close>

datatype error =
    KeyError
  | IndexError
  | ValueError
  | TypeError
  | OverflowError
  | ZeroDivisionError
  | AssertionError
  | UnidentifiedImageError
  | RequestException

text \<open>Sequencing of two steps, the first of which may raise.\<close>

definition bind_err :: "error + 'a \<Rightarrow> ('a \<Rightarrow> error + 'b) \<Rightarrow> error + 'b" where
  "bind_err m f = (case m of Inl e \<Rightarrow> Inl e | Inr x \<Rightarrow> f x)"

subsection \<open>Python's string operations\<close>

text \<open>\<^verbatim>\<open>str.isspace\<close> on ASCII: tab, line feed, vertical tab, form feed, carriage return,
  the four separators \<^verbatim>\<open>\x1c\<close> to \<^verbatim>\<open>\x1f\<close>, and the space.\<close>

definition is_space :: "char \<Rightarrow> bool" where
  "is_space c = (let n = (of_char c :: nat) in (9 \<le> n \<and> n \<le> 13) \<or> (28 \<le> n \<and> n \<le> 32))"

text \<open>\<^verbatim>\<open>s.split()\<close>: the maximal runs of characters that are not whitespace. The first
  argument is the token being read.\<close>

fun split_ws_aux :: "string \<Rightarrow> string \<Rightarrow> string list" where
  "split_ws_aux cur [] = (if cur = [] then [] else [cur])"
| "split_ws_aux cur (c # cs) =
     (if is_space c then (if cur = [] then split_ws_aux [] cs else cur # split_ws_aux [] cs)
      else split_ws_aux (cur @ [c]) cs)"

definition py_split_ws :: "string \<Rightarrow> string list" where
  "py_split_ws s = split_ws_aux [] s"

text \<open>\<^verbatim>\<open>s.split(sep)\<close> for a separator of one character: one more piece than there are
  separators, empty pieces included.\<close>

fun split_char_aux :: "char \<Rightarrow> string \<Rightarrow> string \<Rightarrow> string list" where
  "split_char_aux sep cur [] = [cur]"
| "split_char_aux sep cur (c # cs) =
     (if c = sep then cur # split_char_aux sep [] cs else split_char_aux sep (cur @ [c]) cs)"

definition py_split_char :: "char \<Rightarrow> string \<Rightarrow> string list" where
  "py_split_char sep s = split_char_aux sep [] s"

text \<open>\<^verbatim>\<open>s.find(sub)\<close>: the index of the first occurrence of \<open>sub\<close>, or \<open>-1\<close>.\<close>

fun find_from :: "string \<Rightarrow> int \<Rightarrow> string \<Rightarrow> int" where
  "find_from sub i [] = (if sub = [] then i else - 1)"
| "find_from sub i (c # cs) =
     (if take (length sub) (c # cs) = sub then i else find_from sub (i + 1) cs)"

definition py_find :: "string \<Rightarrow> string \<Rightarrow> int" where
  "py_find s sub = find_from sub 0 s"

text \<open>\<^verbatim>\<open>s[a:b]\<close> for indices that are not negative.\<close>

definition py_slice :: "string \<Rightarrow> nat \<Rightarrow> nat \<Rightarrow> string" where
  "py_slice s a b = take (b - a) (drop a s)"

subsection \<open>Python's integers as text\<close>

definition is_digit :: "char \<Rightarrow> bool" where
  "is_digit c = (let n = (of_char c :: nat) in 48 \<le> n \<and> n \<le> 57)"

definition digit_val :: "char \<Rightarrow> int" where
  "digit_val c = int (of_char c) - 48"

text \<open>The digits of \<^verbatim>\<open>int(s)\<close>: at least one digit, and single underscores between
  digits only. The flag says that the character before was a digit.\<close>

fun parse_digits :: "int \<Rightarrow> bool \<Rightarrow> string \<Rightarrow> int option" where
  "parse_digits acc after_digit [] = (if after_digit then Some acc else None)"
| "parse_digits acc after_digit (c # cs) =
     (if is_digit c then parse_digits (10 * acc + digit_val c) True cs
      else if c = CHR ''_'' \<and> after_digit then parse_digits acc False cs
      else None)"

text \<open>The whitespace that \<^verbatim>\<open>int(s)\<close> skips around the number is that of C's
  \<^verbatim>\<open>isspace\<close>: tab, line feed, vertical tab, form feed, carriage return and the space.
  The separators \<^verbatim>\<open>\x1c\<close> to \<^verbatim>\<open>\x1f\<close>, which \<^verbatim>\<open>str.split\<close> takes for whitespace, are
  not skipped: \<^verbatim>\<open>int("\x1f1")\<close> raises \<^verbatim>\<open>ValueError\<close>.\<close>

definition is_int_space :: "char \<Rightarrow> bool" where
  "is_int_space c = (let n = (of_char c :: nat) in (9 \<le> n \<and> n \<le> 13) \<or> n = 32)"

definition py_strip :: "string \<Rightarrow> string" where
  "py_strip s = rev (dropWhile is_int_space (rev (dropWhile is_int_space s)))"

text \<open>\<^verbatim>\<open>int(s)\<close> in base ten: surrounding whitespace, an optional sign, the digits;
  \<^verbatim>\<open>ValueError\<close> otherwise.\<close>

definition py_int :: "string \<Rightarrow> error + int" where
  "py_int s =
     (case py_strip s of
        [] \<Rightarrow> Inl ValueError
      | c # cs \<Rightarrow>
          (case (if c = CHR ''-'' then map_option uminus (parse_digits 0 False cs)
                 else if c = CHR ''+'' then parse_digits 0 False cs
                 else parse_digits 0 False (c # cs)) of
             None \<Rightarrow> Inl ValueError
           | Some n \<Rightarrow> Inr n))"

definition digit_char :: "nat \<Rightarrow> char" where
  "digit_char d = char_of (48 + d)"

text \<open>\<^verbatim>\<open>str(n)\<close> for an integer.\<close>

fun str_nat :: "nat \<Rightarrow> string" where
  "str_nat n = (if n < 10 then [digit_char n] else str_nat (n div 10) @ [digit_char (n mod 10)])"

definition py_str_int :: "int \<Rightarrow> string" where
  "py_str_int n = (if n < 0 then CHR ''-'' # str_nat (nat (- n)) else str_nat (nat n))"

text \<open>The format \<^verbatim>\<open>%02d\<close> for a number below one hundred.\<close>

definition pad2 :: "int \<Rightarrow> string" where
  "pad2 n = (if n < 10 then CHR ''0'' # py_str_int n else py_str_int n)"

subsection \<open>The table parser\<close>

record response =
  status_code :: int
  body_text :: string
  body_content :: string

type_synonym row = "string \<rightharpoonup> string"

text \<open>The inner loop of \<^verbatim>\<open>extract_table_data\<close>,
  \<^verbatim>\<open>for i, h in enumerate(header): entry[h] = values[i]\<close>: reading \<open>values[i]\<close> past the
  end of the row raises \<^verbatim>\<open>IndexError\<close>.\<close>

fun fill_entry :: "row \<Rightarrow> (nat \<times> string) list \<Rightarrow> string list \<Rightarrow> error + row" where
  "fill_entry entry [] values = Inr entry"
| "fill_entry entry ((i, h) # rest) values =
     (if i < length values then fill_entry (entry(h \<mapsto> values ! i)) rest values
      else Inl IndexError)"

text \<open>The outer loop, \<^verbatim>\<open>for row in rows\<close>, with the result list built so far.\<close>

fun table_rows :: "string list \<Rightarrow> string list \<Rightarrow> row list \<Rightarrow> error + row list" where
  "table_rows header [] result = Inr result"
| "table_rows header (r # rows) result =
     (let values = py_split_ws r in
      if length values = 0 then table_rows header rows result
      else (case fill_entry Map.empty (enumerate 0 header) values of
              Inl e \<Rightarrow> Inl e
            | Inr entry \<Rightarrow> table_rows header rows (result @ [entry])))"

text \<open>\<^verbatim>\<open>extract_table_data(url)\<close>. The first argument is \<^verbatim>\<open>requests.get\<close>, which
  answers or raises. \<open>Inr None\<close> is the value \<^verbatim>\<open>None\<close> returned for a status other
  than 200.\<close>

definition extract_table_data ::
  "(string \<Rightarrow> error + response) \<Rightarrow> string \<Rightarrow> error + row list option" where
  "extract_table_data get url =
     (case get url of
        Inl e \<Rightarrow> Inl e
      | Inr response \<Rightarrow>
          if status_code response \<noteq> 200 then Inr None
          else
            (let lines = py_split_char CHR 0x0A (body_text response) in
             if length lines < 3 then Inl ValueError
             else
               (let header = py_split_ws (drop 1 (lines ! 0));
                    rows = drop 2 lines
                in map_sum id Some (table_rows header rows []))))"

subsection \<open>Typed extraction\<close>

definition MISSING_DATA_INDICATOR :: string where
  "MISSING_DATA_INDICATOR = ''MM''"

definition mps_to_kts :: "real \<Rightarrow> real" where
  "mps_to_kts mps = mps * 1.94384"

definition nmi_to_m :: "real \<Rightarrow> real" where
  "nmi_to_m nmi = nmi * 1852"

text \<open>\<^verbatim>\<open>get_float(row, key, convert_func)\<close>. The first argument is Python's \<^verbatim>\<open>float\<close> on
  text, \<open>None\<close> where it raises \<^verbatim>\<open>ValueError\<close>.\<close>

definition get_float ::
  "(string \<Rightarrow> real option) \<Rightarrow> row \<Rightarrow> string \<Rightarrow> (real \<Rightarrow> real) option \<Rightarrow> error + real option" where
  "get_float py_float row key convert_func =
     (case row key of
        None \<Rightarrow> Inr None
      | Some v \<Rightarrow>
          if v = MISSING_DATA_INDICATOR then Inr None
          else
            (case py_float v of
               None \<Rightarrow> Inl ValueError
             | Some x \<Rightarrow>
                 (case convert_func of
                    None \<Rightarrow> Inr (Some x)
                  | Some f \<Rightarrow> Inr (Some (f x)))))"

subsection \<open>Dates and times\<close>

text \<open>
  A \<^verbatim>\<open>datetime\<close> in UTC with seconds zero is the number of minutes since
  \<^verbatim>\<open>datetime.min\<close>, the start of 1 January of year 1. The calendar is the standard
  library's: the proleptic Gregorian calendar, days numbered from 1.
\<close>

type_synonym datetime = int

definition is_leap :: "int \<Rightarrow> bool" where
  "is_leap y = (y mod 4 = 0 \<and> (y mod 100 \<noteq> 0 \<or> y mod 400 = 0))"

definition days_in_month :: "int \<Rightarrow> int \<Rightarrow> int" where
  "days_in_month y m =
     (if m = 2 then (if is_leap y then 29 else 28)
      else if m = 4 \<or> m = 6 \<or> m = 9 \<or> m = 11 then 30 else 31)"

definition days_before_year :: "int \<Rightarrow> int" where
  "days_before_year y = (let p = y - 1 in p * 365 + p div 4 - p div 100 + p div 400)"

text \<open>The days of the year before the first of month \<open>m\<close>, for \<open>m\<close> from 1 to 12: the
  library's table for a common year, and one more after February of a leap year.\<close>

definition days_before_month :: "int \<Rightarrow> int \<Rightarrow> int" where
  "days_before_month y m =
     [0, 31, 59, 90, 120, 151, 181, 212, 243, 273, 304, 334] ! nat (m - 1)
       + (if m > 2 \<and> is_leap y then 1 else 0)"

definition ymd2ord :: "int \<Rightarrow> int \<Rightarrow> int \<Rightarrow> int" where
  "ymd2ord y m d = days_before_year y + days_before_month y m + d"

text \<open>The day number back to year, month and day, by the library's division into cycles
  of 400, 100, 4 and 1 years.\<close>

definition ord2ymd :: "int \<Rightarrow> int \<times> int \<times> int" where
  "ord2ymd ordinal =
     (let n0 = ordinal - 1;
          n400 = n0 div 146097; r400 = n0 mod 146097;
          n100 = r400 div 36524; r100 = r400 mod 36524;
          n4 = r100 div 1461; r4 = r100 mod 1461;
          n1 = r4 div 365; n = r4 mod 365;
          year = n400 * 400 + 1 + n100 * 100 + n4 * 4 + n1
      in if n1 = 4 \<or> n100 = 4 then (year - 1, 12, 31)
         else
           (let month = (n + 50) div 32;
                preceding = days_before_month year month
            in if preceding > n
               then (year, month - 1, n - days_before_month year (month - 1) + 1)
               else (year, month, n - preceding + 1)))"

definition MINUTES_PER_DAY :: int where
  "MINUTES_PER_DAY = 1440"

text \<open>The day number of \<^verbatim>\<open>datetime.max\<close>, 31 December 9999.\<close>

definition MAX_ORDINAL :: int where
  "MAX_ORDINAL = 3652059"

text \<open>\<^verbatim>\<open>datetime.datetime(year, month, day, hour, minute, tzinfo=utc)\<close>: \<^verbatim>\<open>ValueError\<close> for
  a field out of range.\<close>

definition datetime_new :: "int \<Rightarrow> int \<Rightarrow> int \<Rightarrow> int \<Rightarrow> int \<Rightarrow> error + datetime" where
  "datetime_new year month day hour minute =
     (if 1 \<le> year \<and> year \<le> 9999 \<and> 1 \<le> month \<and> month \<le> 12
         \<and> 1 \<le> day \<and> day \<le> days_in_month year month
         \<and> 0 \<le> hour \<and> hour \<le> 23 \<and> 0 \<le> minute \<and> minute \<le> 59
      then Inr ((ymd2ord year month day - 1) * MINUTES_PER_DAY + hour * 60 + minute)
      else Inl ValueError)"

text \<open>\<^verbatim>\<open>d - datetime.timedelta(minutes=k)\<close>: \<^verbatim>\<open>OverflowError\<close> when the result is not a
  date of the years 1 to 9999.\<close>

definition datetime_sub_minutes :: "datetime \<Rightarrow> int \<Rightarrow> error + datetime" where
  "datetime_sub_minutes d k =
     (if d - k < 0 \<or> MAX_ORDINAL * MINUTES_PER_DAY \<le> d - k then Inl OverflowError
      else Inr (d - k))"

text \<open>\<^verbatim>\<open>d.strftime("%Y_%m_%d_%H%M")\<close>. The year is printed as the C library of Linux
  prints it, without padding; from the year 1000 on every platform prints the same.\<close>

definition date_to_date_string :: "datetime \<Rightarrow> string" where
  "date_to_date_string d =
     (case ord2ymd (d div MINUTES_PER_DAY + 1) of
        (year, month, day) \<Rightarrow>
          py_str_int year @ ''_'' @ pad2 month @ ''_'' @ pad2 day @ ''_''
            @ pad2 ((d mod MINUTES_PER_DAY) div 60) @ pad2 (d mod 60))"

text \<open>\<^verbatim>\<open>extract_date_string(filename)\<close>. The test \<^verbatim>\<open>start_index == -1\<close> comes after
  one was added to the result of \<^verbatim>\<open>find\<close>, so \<open>start_index\<close> is never negative.\<close>

definition extract_date_string :: "string \<Rightarrow> string option" where
  "extract_date_string filename =
     (let start_index = py_find filename ''_'' + 1 in
      if start_index = - 1 then None
      else
        (let end_index = py_find filename ''.jpg'' in
         if end_index = - 1 then None
         else Some (py_slice filename (nat start_index) (nat end_index))))"

text \<open>\<^verbatim>\<open>date_string_to_date(date_string)\<close>: \<open>Inr None\<close> for a text that is not 15
  characters long; \<^verbatim>\<open>int\<close> and the constructor raise \<^verbatim>\<open>ValueError\<close>.\<close>

definition date_string_to_date :: "string \<Rightarrow> error + datetime option" where
  "date_string_to_date date_string =
     (if length date_string \<noteq> 15 then Inr None
      else
        bind_err (py_int (py_slice date_string 0 4)) (\<lambda>year.
        bind_err (py_int (py_slice date_string 5 7)) (\<lambda>month.
        bind_err (py_int (py_slice date_string 8 10)) (\<lambda>day.
        bind_err (py_int (py_slice date_string 11 13)) (\<lambda>hour.
        bind_err (py_int (py_slice date_string 13 15)) (\<lambda>minute.
        map_sum id Some (datetime_new year month day hour minute)))))))"

subsection \<open>Image requests\<close>

definition BUOYCAM_IMAGE_FILE_URL_BASE :: string where
  "BUOYCAM_IMAGE_FILE_URL_BASE = ''https://www.ndbc.noaa.gov/images/buoycam/''"

definition OBSERVATION_URL :: string where
  "OBSERVATION_URL = ''https://www.ndbc.noaa.gov/data/realtime2''"

text \<open>\<^verbatim>\<open>class BuoyImageRequest\<close>. The description is the listing's name, which may be
  JSON's \<^verbatim>\<open>null\<close>.\<close>

record BuoyImageRequest =
  req_id :: string
  tag :: string
  req_description :: "string option"
  date :: datetime
  output_root_dir :: string

definition date_string :: "BuoyImageRequest \<Rightarrow> string" where
  "date_string r = date_to_date_string (date r)"

definition image_name :: "BuoyImageRequest \<Rightarrow> string" where
  "image_name r = tag r @ ''_'' @ date_string r"

definition image_filename :: "BuoyImageRequest \<Rightarrow> string" where
  "image_filename r = image_name r @ ''.jpg''"

definition url :: "BuoyImageRequest \<Rightarrow> string" where
  "url r = BUOYCAM_IMAGE_FILE_URL_BASE @ image_filename r"

definition save_directory :: "BuoyImageRequest \<Rightarrow> string" where
  "save_directory r = output_root_dir r @ ''/'' @ req_id r @ ''/'' @ date_string r"

definition save_image_full_path :: "BuoyImageRequest \<Rightarrow> string \<Rightarrow> string" where
  "save_image_full_path r postfix =
     save_directory r @ ''/'' @ image_name r
       @ (if postfix \<noteq> [] then ''_'' @ postfix else []) @ ''.jpg''"

subsection \<open>The request generator\<close>

text \<open>An entry of the directory listing: a JSON object whose values are text or
  \<^verbatim>\<open>null\<close> (\<open>Some None\<close>); a key that is absent maps to \<open>None\<close>.\<close>

type_synonym buoy_cam = "string \<rightharpoonup> string option"

text \<open>A list comprehension whose element may raise.\<close>

fun map_err :: "('a \<Rightarrow> error + 'b) \<Rightarrow> 'a list \<Rightarrow> error + 'b list" where
  "map_err f [] = Inr []"
| "map_err f (x # xs) =
     (case f x of
        Inl e \<Rightarrow> Inl e
      | Inr y \<Rightarrow> (case map_err f xs of Inl e \<Rightarrow> Inl e | Inr ys \<Rightarrow> Inr (y # ys)))"

text \<open>\<^verbatim>\<open>range(n)\<close>.\<close>

definition py_range :: "int \<Rightarrow> int list" where
  "py_range n = [0..n - 1]"

text \<open>One pass of the loop of \<^verbatim>\<open>generate_requests\<close>: the requests it appends, none
  where the pass ends in \<^verbatim>\<open>continue\<close>.\<close>

definition buoy_cam_requests :: "buoy_cam \<Rightarrow> string \<Rightarrow> int \<Rightarrow> error + BuoyImageRequest list" where
  "buoy_cam_requests buoy_cam output_dir hours_in_past =
     (case (buoy_cam ''id'', buoy_cam ''name'', buoy_cam ''img'') of
        (Some id_value, Some name_value, Some img_value) \<Rightarrow>
          (case id_value of
             None \<Rightarrow> Inr []
           | Some station_id \<Rightarrow>
               (case img_value of
                  None \<Rightarrow> Inr []
                | Some img_filename \<Rightarrow>
                    (let station_tag = hd (py_split_char CHR ''_'' img_filename) in
                     case extract_date_string img_filename of
                       None \<Rightarrow> Inr []
                     | Some img_datetime_string \<Rightarrow>
                         (case date_string_to_date img_datetime_string of
                            Inl e \<Rightarrow> Inl e
                          | Inr None \<Rightarrow> Inr []
                          | Inr (Some latest_img_date) \<Rightarrow>
                              (case map_err (\<lambda>i. datetime_sub_minutes latest_img_date (10 * i))
                                      (py_range (hours_in_past * 6)) of
                                 Inl e \<Rightarrow> Inl e
                               | Inr image_dates \<Rightarrow>
                                   Inr (map (\<lambda>d. \<lparr>req_id = station_id, tag = station_tag,
                                                  req_description = name_value, date = d,
                                                  output_root_dir = output_dir\<rparr>)
                                          image_dates))))))
      | _ \<Rightarrow> Inr [])"

text \<open>\<^verbatim>\<open>generate_requests\<close>, with the list \<open>image_requests\<close> built so far.\<close>

fun generate_requests_loop ::
  "buoy_cam list \<Rightarrow> string \<Rightarrow> int \<Rightarrow> BuoyImageRequest list \<Rightarrow> error + BuoyImageRequest list" where
  "generate_requests_loop [] output_dir hours_in_past image_requests = Inr image_requests"
| "generate_requests_loop (buoy_cam # rest) output_dir hours_in_past image_requests =
     (case buoy_cam_requests buoy_cam output_dir hours_in_past of
        Inl e \<Rightarrow> Inl e
      | Inr new \<Rightarrow> generate_requests_loop rest output_dir hours_in_past (image_requests @ new))"

definition generate_requests ::
  "buoy_cam list \<Rightarrow> string \<Rightarrow> int \<Rightarrow> error + BuoyImageRequest list" where
  "generate_requests buoy_cam_list output_dir hours_in_past =
     generate_requests_loop buoy_cam_list output_dir hours_in_past []"

subsection \<open>Observations\<close>

text \<open>\<^verbatim>\<open>class Observation\<close>: the key of the reading and its measurements, each a number
  or \<^verbatim>\<open>None\<close>.\<close>

record Observation =
  timestamp :: string
  wind_speed_kts :: "real option"
  wind_direction_deg :: "real option"
  gust_speed_kts :: "real option"
  wave_height_m :: "real option"
  dominant_wave_period_s :: "real option"
  average_wave_period_s :: "real option"
  mean_wave_direction_deg :: "real option"
  atmospheric_pressure_hpa :: "real option"
  air_temperature_c :: "real option"
  water_temperature_c :: "real option"
  dewpoint_temperature_c :: "real option"
  visibility_m :: "real option"
  pressure_tendency_hpa :: "real option"
  tide_m :: "real option"

text \<open>\<^verbatim>\<open>table_row_to_observation(row)\<close>: \<open>Inr None\<close> for a row without one of the five
  timestamp columns. The arguments of the constructor are evaluated in the order written,
  and the first \<^verbatim>\<open>get_float\<close> that raises ends the call.\<close>

definition table_row_to_observation ::
  "(string \<Rightarrow> real option) \<Rightarrow> row \<Rightarrow> error + Observation option" where
  "table_row_to_observation py_float row =
     (case (row ''YY'', row ''MM'', row ''DD'', row ''hh'', row ''mm'') of
        (Some yy, Some mo, Some dd, Some hh, Some mi) \<Rightarrow>
          bind_err (get_float py_float row ''WSPD'' (Some mps_to_kts)) (\<lambda>wspd.
          bind_err (get_float py_float row ''WDIR'' None) (\<lambda>wdir.
          bind_err (get_float py_float row ''GST'' (Some mps_to_kts)) (\<lambda>gst.
          bind_err (get_float py_float row ''WVHT'' None) (\<lambda>wvht.
          bind_err (get_float py_float row ''DPD'' None) (\<lambda>dpd.
          bind_err (get_float py_float row ''APD'' None) (\<lambda>apd.
          bind_err (get_float py_float row ''MWD'' None) (\<lambda>mwd.
          bind_err (get_float py_float row ''PRES'' None) (\<lambda>pres.
          bind_err (get_float py_float row ''ATMP'' None) (\<lambda>atmp.
          bind_err (get_float py_float row ''WTMP'' None) (\<lambda>wtmp.
          bind_err (get_float py_float row ''DEWP'' None) (\<lambda>dewp.
          bind_err (get_float py_float row ''VIS'' (Some nmi_to_m)) (\<lambda>vis.
          bind_err (get_float py_float row ''PTDY'' None) (\<lambda>ptdy.
          bind_err (get_float py_float row ''TIDE'' None) (\<lambda>tide.
          Inr (Some \<lparr>timestamp = yy @ ''_'' @ mo @ ''_'' @ dd @ ''_'' @ hh @ mi,
                      wind_speed_kts = wspd,
                      wind_direction_deg = wdir,
                      gust_speed_kts = gst,
                      wave_height_m = wvht,
                      dominant_wave_period_s = dpd,
                      average_wave_period_s = apd,
                      mean_wave_direction_deg = mwd,
                      atmospheric_pressure_hpa = pres,
                      air_temperature_c = atmp,
                      water_temperature_c = wtmp,
                      dewpoint_temperature_c = dewp,
                      visibility_m = vis,
                      pressure_tendency_hpa = ptdy,
                      tide_m = tide\<rparr>)))))))))))))))
      | _ \<Rightarrow> Inr None)"

text \<open>\<^verbatim>\<open>str(x)\<close> inside an f-string, for a value that may be \<^verbatim>\<open>None\<close>.\<close>

definition str_opt :: "('a \<Rightarrow> string) \<Rightarrow> 'a option \<Rightarrow> string" where
  "str_opt f x = (case x of None \<Rightarrow> ''None'' | Some v \<Rightarrow> f v)"

text \<open>\<^verbatim>\<open>get_observation_str_for_file\<close>. The first argument prints a float. Each line ends
  with a line feed.\<close>

definition get_observation_str_for_file ::
  "(real \<Rightarrow> string) \<Rightarrow> string \<Rightarrow> string option \<Rightarrow> real option \<Rightarrow> real option
     \<Rightarrow> Observation \<Rightarrow> int option \<Rightarrow> string" where
  "get_observation_str_for_file float_str station_id description lat lon observation angle =
     ''id '' @ station_id @ [CHR 0x0A]
     @ ''description '' @ str_opt id description @ [CHR 0x0A]
     @ ''timestamp '' @ timestamp observation @ [CHR 0x0A]
     @ ''lat_deg '' @ str_opt float_str lat @ [CHR 0x0A]
     @ ''lon_deg '' @ str_opt float_str lon @ [CHR 0x0A]
     @ ''first_image_bearing_deg '' @ str_opt py_str_int angle @ [CHR 0x0A]
     @ ''wind_speed_kts '' @ str_opt float_str (wind_speed_kts observation) @ [CHR 0x0A]
     @ ''wind_direction_deg '' @ str_opt float_str (wind_direction_deg observation) @ [CHR 0x0A]
     @ ''gust_speed_kts '' @ str_opt float_str (gust_speed_kts observation) @ [CHR 0x0A]
     @ ''wave_height_m: '' @ str_opt float_str (wave_height_m observation) @ [CHR 0x0A]
     @ ''dominant_wave_period_s '' @ str_opt float_str (dominant_wave_period_s observation) @ [CHR 0x0A]
     @ ''average_wave_period_s '' @ str_opt float_str (average_wave_period_s observation) @ [CHR 0x0A]
     @ ''mean_wave_direction_deg '' @ str_opt float_str (mean_wave_direction_deg observation) @ [CHR 0x0A]
     @ ''atmospheric_pressure_hpa '' @ str_opt float_str (atmospheric_pressure_hpa observation) @ [CHR 0x0A]
     @ ''air_temperature_c '' @ str_opt float_str (air_temperature_c observation) @ [CHR 0x0A]
     @ ''water_temperature_c '' @ str_opt float_str (water_temperature_c observation) @ [CHR 0x0A]
     @ ''dewpoint_temperature_c '' @ str_opt float_str (dewpoint_temperature_c observation) @ [CHR 0x0A]
     @ ''visibility_m '' @ str_opt float_str (visibility_m observation) @ [CHR 0x0A]
     @ ''pressure_tendency_hpa '' @ str_opt float_str (pressure_tendency_hpa observation) @ [CHR 0x0A]
     @ ''tide_m '' @ str_opt float_str (tide_m observation) @ [CHR 0x0A]"

text \<open>\<^verbatim>\<open>class BuoyData\<close>. The station id comes from the listing and may be JSON's
  \<^verbatim>\<open>null\<close>; the description is the empty text until the orchestrator sets it.\<close>

record BuoyData =
  bd_id :: "string option"
  observations :: "string \<rightharpoonup> Observation"
  lat_deg :: "real option"
  lon_deg :: "real option"
  bd_description :: "string option"

definition new_BuoyData :: "string option \<Rightarrow> BuoyData" where
  "new_BuoyData station_id =
     \<lparr>bd_id = station_id, observations = Map.empty, lat_deg = None, lon_deg = None,
      bd_description = Some []\<rparr>"

definition add_observation :: "BuoyData \<Rightarrow> Observation \<Rightarrow> BuoyData" where
  "add_observation d observation =
     d\<lparr>observations := (observations d)(timestamp observation \<mapsto> observation)\<rparr>"

definition has_observation :: "BuoyData \<Rightarrow> string \<Rightarrow> bool" where
  "has_observation d ts = (observations d ts \<noteq> None)"

definition get_observation :: "BuoyData \<Rightarrow> string \<Rightarrow> Observation option" where
  "get_observation d ts = (if has_observation d ts then observations d ts else None)"

text \<open>The loop of \<^verbatim>\<open>get_observation_data\<close> over the rows of the table.\<close>

fun add_rows :: "(string \<Rightarrow> real option) \<Rightarrow> row list \<Rightarrow> BuoyData \<Rightarrow> error + BuoyData" where
  "add_rows py_float [] d = Inr d"
| "add_rows py_float (r # rows) d =
     (case table_row_to_observation py_float r of
        Inl e \<Rightarrow> Inl e
      | Inr None \<Rightarrow> add_rows py_float rows d
      | Inr (Some observation) \<Rightarrow> add_rows py_float rows (add_observation d observation))"

subsection \<open>Images and files\<close>

text \<open>A decoded image: its size and, for the pixel in column \<open>x\<close> of row \<open>y\<close>, the
  brightness that \<^verbatim>\<open>convert("L")\<close> gives it.\<close>

record image =
  width :: nat
  height :: nat
  luminance :: "nat \<Rightarrow> nat \<Rightarrow> nat"

definition BUOYCAM_IMAGE_ROW_LENGTH :: nat where
  "BUOYCAM_IMAGE_ROW_LENGTH = 6"

definition IMAGE_WIDTH :: nat where
  "IMAGE_WIDTH = 2880"

definition IMAGE_HEIGHT :: nat where
  "IMAGE_HEIGHT = 300"

definition SUB_IMAGE_WIDTH :: nat where
  "SUB_IMAGE_WIDTH = 480"

definition SUB_IMAGE_HEIGHT :: nat where
  "SUB_IMAGE_HEIGHT = 270"

definition FRACTION_BLACK_THRESHOLD :: real where
  "FRACTION_BLACK_THRESHOLD = 0.85"

text \<open>\<^verbatim>\<open>img.crop((left, upper, right, lower))\<close>: the part of the box that lies outside
  the image is black.\<close>

definition crop :: "image \<Rightarrow> nat \<Rightarrow> nat \<Rightarrow> nat \<Rightarrow> nat \<Rightarrow> image" where
  "crop img left upper right lower =
     \<lparr>width = right - left, height = lower - upper,
      luminance = (\<lambda>x y. if left + x < width img \<and> upper + y < height img
                          then luminance img (left + x) (upper + y) else 0)\<rparr>"

definition split_image :: "image \<Rightarrow> image list" where
  "split_image img =
     map (\<lambda>i. crop img (i * SUB_IMAGE_WIDTH) 0 (i * SUB_IMAGE_WIDTH + SUB_IMAGE_WIDTH) SUB_IMAGE_HEIGHT)
       [0..<BUOYCAM_IMAGE_ROW_LENGTH]"

text \<open>\<^verbatim>\<open>np.array(img.convert("L")).flatten()\<close>: the pixels row by row.\<close>

definition img_array :: "image \<Rightarrow> nat list" where
  "img_array img =
     concat (map (\<lambda>y. map (\<lambda>x. luminance img x y) [0..<width img]) [0..<height img])"

text \<open>\<^verbatim>\<open>fraction_black(img)\<close>: the division of two Python integers, which raises for an
  image without pixels. The quotient is exact here. Python rounds it to the nearest
  double, as it rounds the constant 0.85; rounding keeps the order, and a quotient with a
  denominator below \<open>10\<^sup>1\<^sup>4\<close> that is greater than 17/20 exceeds it by more than
  the two rounding errors, so for every image of fewer pixels than that the test against
  the threshold gives the same answer on doubles as on exact quotients.\<close>

definition fraction_black :: "image \<Rightarrow> error + real" where
  "fraction_black img =
     (let a = img_array img in
      if length a = 0 then Inl ZeroDivisionError
      else Inr (real (length (filter (\<lambda>p. p = 0) a)) / real (length a)))"

datatype file_data = ImageFile image | TextFile string

record filesystem =
  dirs :: "string set"
  files :: "string \<rightharpoonup> file_data"

text \<open>\<^verbatim>\<open>if not os.path.exists(d): os.makedirs(d)\<close>, and the writing of a file. The
  operations of the local file system are taken to succeed.\<close>

definition makedirs :: "string \<Rightarrow> filesystem \<Rightarrow> filesystem" where
  "makedirs d fs = (if d \<in> dirs fs then fs else fs\<lparr>dirs := insert d (dirs fs)\<rparr>)"

definition save_file :: "string \<Rightarrow> file_data \<Rightarrow> filesystem \<Rightarrow> filesystem" where
  "save_file path data fs = fs\<lparr>files := (files fs)(path \<mapsto> data)\<rparr>"

text \<open>The loop of \<^verbatim>\<open>fetch_and_process_image\<close> over \<^verbatim>\<open>enumerate(sub_images)\<close>: a
  sub-image whose fraction of black pixels is greater than the threshold is passed over,
  every other one is saved under its index.\<close>

fun save_sub_images ::
  "BuoyImageRequest \<Rightarrow> (nat \<times> image) list \<Rightarrow> filesystem \<Rightarrow> (error + unit) \<times> filesystem" where
  "save_sub_images request [] fs = (Inr (), fs)"
| "save_sub_images request ((i, sub_img) # rest) fs =
     (case fraction_black sub_img of
        Inl e \<Rightarrow> (Inl e, fs)
      | Inr fraction_black_value \<Rightarrow>
          if fraction_black_value > FRACTION_BLACK_THRESHOLD
          then save_sub_images request rest fs
          else save_sub_images request rest
                 (save_file (save_image_full_path request (str_nat i)) (ImageFile sub_img) fs))"

subsection \<open>The bearing extractor\<close>

text \<open>\<^verbatim>\<open>class OCR\<close>: the recogniser gives, for an image, the texts it found in order.\<close>

record OCR =
  readtext :: "image \<Rightarrow> string list"

text \<open>\<^verbatim>\<open>str.isnumeric\<close> on ASCII.\<close>

definition py_isnumeric :: "string \<Rightarrow> bool" where
  "py_isnumeric s = (s \<noteq> [] \<and> list_all is_digit s)"

definition ocr_get_angle_from_image :: "OCR \<Rightarrow> image \<Rightarrow> error + int option" where
  "ocr_get_angle_from_image ocr img =
     (let results = readtext ocr img in
      if length results = 0 then Inr None
      else
        (let text_result = results ! 0 in
         if length text_result < 2 then Inr None
         else
           (let first_result = butlast text_result in
            if \<not> py_isnumeric first_result then Inr None
            else
              (case py_int first_result of
                 Inl e \<Rightarrow> Inl e
               | Inr angle \<Rightarrow> if angle < 0 \<or> angle > 360 then Inr None else Inr (Some angle)))))"

definition get_angle_from_image :: "image \<Rightarrow> OCR \<Rightarrow> error + int option" where
  "get_angle_from_image img ocr_reader =
     (if \<not> (width img = IMAGE_WIDTH \<and> height img = IMAGE_HEIGHT) then Inl AssertionError
      else ocr_get_angle_from_image ocr_reader
             (crop img 150 (height img - 30) 250 (height img)))"

subsection \<open>What the program asks of its surroundings\<close>

text \<open>
  \<^item> \<open>http_get\<close> is \<^verbatim>\<open>requests.get(url, timeout=10)\<close>: a response, or the exception it
    raises;
  \<^item> \<open>image_open\<close> is \<^verbatim>\<open>Image.open(BytesIO(content))\<close>: the decoded image, or the
    exception raised for a body that is not an image;
  \<^item> \<open>py_float\<close> is \<^verbatim>\<open>float\<close> on text, \<open>None\<close> where it raises \<^verbatim>\<open>ValueError\<close>;
  \<^item> \<open>float_str\<close> prints a float.
\<close>

record world =
  http_get :: "string \<Rightarrow> error + response"
  image_open :: "string \<Rightarrow> error + image"
  py_float :: "string \<Rightarrow> real option"
  float_str :: "real \<Rightarrow> string"

subsection \<open>The observation store\<close>

text \<open>\<^verbatim>\<open>get_observation_data(station_id)\<close>: \<open>Inr None\<close> where the table could not be
  fetched.\<close>

definition get_observation_data :: "world \<Rightarrow> string option \<Rightarrow> error + BuoyData option" where
  "get_observation_data w station_id =
     (case extract_table_data (http_get w)
             (OBSERVATION_URL @ ''/'' @ str_opt id station_id @ ''.txt'') of
        Inl e \<Rightarrow> Inl e
      | Inr None \<Rightarrow> Inr None
      | Inr (Some observation_data) \<Rightarrow>
          map_sum id Some (add_rows (py_float w) observation_data (new_BuoyData station_id)))"

subsection \<open>The image fetcher and processor\<close>

definition get_image_file :: "world \<Rightarrow> string \<Rightarrow> error + image option" where
  "get_image_file w u =
     (case http_get w u of
        Inl e \<Rightarrow> Inl e
      | Inr response \<Rightarrow>
          if status_code response \<noteq> 200 then Inr None
          else map_sum id Some (image_open w (body_content response)))"

text \<open>The value bound to the parameter \<^verbatim>\<open>output_dir\<close> of \<^verbatim>\<open>fetch_and_process_image\<close>,
  which the function never reads: a text, or the recogniser that the orchestrator
  passes in third position.\<close>

datatype py_arg = StrArg string | OCRArg OCR

text \<open>\<^verbatim>\<open>fetch_and_process_image(request, buoy_data, output_dir, ocr_reader=None)\<close>: the
  value returned or the exception raised, and the file system it leaves.\<close>

definition fetch_and_process_image ::
  "world \<Rightarrow> BuoyImageRequest \<Rightarrow> BuoyData \<Rightarrow> py_arg \<Rightarrow> OCR option \<Rightarrow> filesystem
     \<Rightarrow> (error + bool) \<times> filesystem" where
  "fetch_and_process_image w request buoy_data output_dir ocr_reader fs =
     (case get_image_file w (url request) of
        Inl e \<Rightarrow> (Inl e, fs)
      | Inr None \<Rightarrow> (Inr False, fs)
      | Inr (Some img) \<Rightarrow>
          if width img \<noteq> IMAGE_WIDTH \<or> height img \<noteq> IMAGE_HEIGHT then (Inr False, fs)
          else
            (let sub_images = split_image img;
                 fs1 = makedirs (save_directory request) fs;
                 fs2 = save_file (save_image_full_path request ''full'') (ImageFile img) fs1
             in case save_sub_images request (enumerate 0 sub_images) fs2 of
                  (Inl e, fs3) \<Rightarrow> (Inl e, fs3)
                | (Inr u, fs3) \<Rightarrow>
                    (case (case ocr_reader of
                             None \<Rightarrow> Inr None
                           | Some reader \<Rightarrow> get_angle_from_image img reader) of
                       Inl e \<Rightarrow> (Inl e, fs3)
                     | Inr bearing_of_first_image \<Rightarrow>
                         (case get_observation buoy_data (date_string request) of
                            Some observation \<Rightarrow>
                              (Inr True,
                               save_file (save_directory request @ ''/observation.txt'')
                                 (TextFile
                                    (get_observation_str_for_file (float_str w) (req_id request)
                                       (bd_description buoy_data) (lat_deg buoy_data)
                                       (lon_deg buoy_data) observation bearing_of_first_image))
                                 fs3)
                          | None \<Rightarrow> (Inr True, fs3)))))"

subsection \<open>The orchestrator\<close>

type_synonym buoy_data_lookup = "string option \<rightharpoonup> BuoyData"

text \<open>\<^verbatim>\<open>float(buoy[key]) if key in buoy else None\<close>: \<^verbatim>\<open>float(None)\<close> raises
  \<^verbatim>\<open>TypeError\<close>.\<close>

definition listing_float :: "(string \<Rightarrow> real option) \<Rightarrow> string option option \<Rightarrow> error + real option" where
  "listing_float pf v =
     (case v of
        None \<Rightarrow> Inr None
      | Some None \<Rightarrow> Inl TypeError
      | Some (Some s) \<Rightarrow> (case pf s of None \<Rightarrow> Inl ValueError | Some x \<Rightarrow> Inr (Some x)))"

text \<open>The first phase of \<^verbatim>\<open>main\<close>: one fetch of observations for every entry with an
  id, joined into the map from station id to observations.\<close>

fun observation_phase :: "world \<Rightarrow> buoy_cam list \<Rightarrow> buoy_data_lookup \<Rightarrow> error + buoy_data_lookup" where
  "observation_phase w [] lookup = Inr lookup"
| "observation_phase w (buoy # rest) lookup =
     (case buoy ''id'' of
        None \<Rightarrow> observation_phase w rest lookup
      | Some station_id \<Rightarrow>
          (case get_observation_data w station_id of
             Inl e \<Rightarrow> Inl e
           | Inr None \<Rightarrow> observation_phase w rest lookup
           | Inr (Some result) \<Rightarrow>
               (case listing_float (py_float w) (buoy ''lat'') of
                  Inl e \<Rightarrow> Inl e
                | Inr lat \<Rightarrow>
                    (case listing_float (py_float w) (buoy ''lng'') of
                       Inl e \<Rightarrow> Inl e
                     | Inr lon \<Rightarrow>
                         observation_phase w rest
                           (lookup(bd_id result \<mapsto>
                              result\<lparr>bd_description :=
                                        (case buoy ''name'' of None \<Rightarrow> None | Some n \<Rightarrow> n),
                                      lat_deg := lat, lon_deg := lon\<rparr>))))))"

text \<open>The loop of \<^verbatim>\<open>main\<close> under the comment "only request images that we have
  observation data for", with the list \<open>filtered_requests\<close> built so far. The first test
  only logs a warning; the second reads \<^verbatim>\<open>buoy_data_lookup[ir.id]\<close>, which raises
  \<^verbatim>\<open>KeyError\<close> for an id that is not in the map, and only logs a warning too; then the
  request is appended.\<close>

fun filter_requests ::
  "buoy_data_lookup \<Rightarrow> BuoyImageRequest list \<Rightarrow> BuoyImageRequest list \<Rightarrow> error + BuoyImageRequest list" where
  "filter_requests lookup [] filtered_requests = Inr filtered_requests"
| "filter_requests lookup (ir # rest) filtered_requests =
     (case lookup (Some (req_id ir)) of
        None \<Rightarrow> Inl KeyError
      | Some buoy_data \<Rightarrow> filter_requests lookup rest (filtered_requests @ [ir]))"

text \<open>The submission loop of the second phase: \<^verbatim>\<open>buoy_data_lookup[request.id]\<close> is read
  when the task is submitted. The tasks submitted before a \<^verbatim>\<open>KeyError\<close> still run.\<close>

fun submit_tasks ::
  "buoy_data_lookup \<Rightarrow> BuoyImageRequest list \<Rightarrow> (BuoyImageRequest \<times> BuoyData) list \<times> error option" where
  "submit_tasks lookup [] = ([], None)"
| "submit_tasks lookup (request # rest) =
     (case lookup (Some (req_id request)) of
        None \<Rightarrow> ([], Some KeyError)
      | Some buoy_data \<Rightarrow>
          (case submit_tasks lookup rest of
             (tasks, e) \<Rightarrow> ((request, buoy_data) # tasks, e)))"

text \<open>The tasks of the second phase. The call is
  \<^verbatim>\<open>fetch_and_process_image(request, buoy_data_lookup[request.id], ocr_reader)\<close>: the
  recogniser is the third positional argument, \<^verbatim>\<open>output_dir\<close>, and the parameter
  \<^verbatim>\<open>ocr_reader\<close> keeps its default.\<close>

fun run_tasks ::
  "world \<Rightarrow> OCR \<Rightarrow> (BuoyImageRequest \<times> BuoyData) list \<Rightarrow> filesystem
     \<Rightarrow> (BuoyImageRequest \<times> (error + bool)) list \<times> filesystem" where
  "run_tasks w ocr_reader [] fs = ([], fs)"
| "run_tasks w ocr_reader ((request, buoy_data) # rest) fs =
     (case fetch_and_process_image w request buoy_data (OCRArg ocr_reader) None fs of
        (r, fs1) \<Rightarrow>
          (case run_tasks w ocr_reader rest fs1 of
             (rs, fs2) \<Rightarrow> ((request, r) # rs, fs2)))"

text \<open>The loop over the finished tasks: \<^verbatim>\<open>future.result()\<close> raises what the task
  raised.\<close>

fun collect_results ::
  "(BuoyImageRequest \<times> (error + bool)) list \<Rightarrow> error + (BuoyImageRequest \<times> bool) list" where
  "collect_results [] = Inr []"
| "collect_results ((request, r) # rest) =
     (case r of
        Inl e \<Rightarrow> Inl e
      | Inr ok \<Rightarrow> (case collect_results rest of Inl e \<Rightarrow> Inl e | Inr rs \<Rightarrow> Inr ((request, ok) # rs)))"

definition image_phase ::
  "world \<Rightarrow> buoy_data_lookup \<Rightarrow> OCR \<Rightarrow> BuoyImageRequest list \<Rightarrow> filesystem
     \<Rightarrow> (error + (BuoyImageRequest \<times> bool) list) \<times> filesystem" where
  "image_phase w lookup ocr_reader filtered_requests fs =
     (case submit_tasks lookup filtered_requests of
        (tasks, e) \<Rightarrow>
          (case run_tasks w ocr_reader tasks fs of
             (outcomes, fs1) \<Rightarrow>
               (case e of
                  Some err \<Rightarrow> (Inl err, fs1)
                | None \<Rightarrow> (collect_results outcomes, fs1))))"

text \<open>\<^verbatim>\<open>main\<close> from the listing on: the listing that \<^verbatim>\<open>get_json\<close> returned, the
  recogniser that \<^verbatim>\<open>OCR()\<close> built and the arguments \<^verbatim>\<open>--output\<close> and \<^verbatim>\<open>--hours\<close> are
  given.\<close>

definition main ::
  "world \<Rightarrow> OCR \<Rightarrow> buoy_cam list \<Rightarrow> string \<Rightarrow> int \<Rightarrow> filesystem
     \<Rightarrow> (error + (BuoyImageRequest \<times> bool) list) \<times> filesystem" where
  "main w ocr_reader buoy_cam_list output hours fs =
     (case observation_phase w buoy_cam_list Map.empty of
        Inl e \<Rightarrow> (Inl e, fs)
      | Inr lookup \<Rightarrow>
          (case generate_requests buoy_cam_list output hours of
             Inl e \<Rightarrow> (Inl e, fs)
           | Inr image_requests \<Rightarrow>
               (case filter_requests lookup image_requests [] of
                  Inl e \<Rightarrow> (Inl e, fs)
                | Inr filtered_requests \<Rightarrow>
                    image_phase w lookup ocr_reader filtered_requests fs)))"

subsection \<open>Predicates of the statements\<close>

text \<open>A record made from a row of tokens \<open>vs\<close>: its keys are the tokens of the header,
  and a header token that does not occur again further right maps to the token of the row
  at its position.\<close>

definition row_entry_ok :: "string list \<Rightarrow> string list \<Rightarrow> row \<Rightarrow> bool" where
  "row_entry_ok header vs entry =
     (dom entry = set header \<and>
      (\<forall>i<length header. header ! i \<notin> set (drop (Suc i) header)
         \<longrightarrow> entry (header ! i) = Some (vs ! i)))"

text \<open>A text that renders an observation with the bearing \<^verbatim>\<open>None\<close>.\<close>

definition bearing_absent :: "world \<Rightarrow> string \<Rightarrow> bool" where
  "bearing_absent w s =
     (\<exists>station_id description lat lon observation.
        s = get_observation_str_for_file (float_str w) station_id description lat lon
              observation None)"

subsection \<open>Example inputs\<close>

text \<open>A table whose only data row has two tokens under a header of three, and a table
  with a full row, a blank row and an empty last line.\<close>

definition table_short :: string where
  "table_short = ''#YY MM DD'' @ [CHR 0x0A] @ ''#yr mo dy'' @ [CHR 0x0A] @ ''2024 01''"

definition table_full :: string where
  "table_full =
     ''#YY MM DD'' @ [CHR 0x0A] @ ''#yr mo dy'' @ [CHR 0x0A] @ ''2024 01 02'' @ [CHR 0x0A]
       @ '' '' @ [CHR 0x0A]"

definition get_table :: "string \<Rightarrow> string \<Rightarrow> error + response" where
  "get_table t u = Inr \<lparr>status_code = 200, body_text = t, body_content = []\<rparr>"

text \<open>\<^verbatim>\<open>float\<close> on the one text \<^verbatim>\<open>"10"\<close>.\<close>

definition float_ten :: "string \<Rightarrow> real option" where
  "float_ten s = (if s = ''10'' then Some 10 else None)"

text \<open>The request for the image of station 41001 taken on 1 January 2024 at 12:00.\<close>

definition example_request :: BuoyImageRequest where
  "example_request =
     \<lparr>req_id = ''41001'', tag = ''W64A'', req_description = Some ''EAST'',
      date = 1063995120, output_root_dir = ''images''\<rparr>"

definition empty_fs :: filesystem where
  "empty_fs = \<lparr>dirs = {}, files = Map.empty\<rparr>"

text \<open>Listing entries: one whose latest image is dated at the start of year 1, one with
  letters in the month of the date, and the entry of station 41001 with the image of
  1 January 2024 at 12:00.\<close>

definition year_one_entry :: buoy_cam where
  "year_one_entry = [''id'' \<mapsto> Some ''41001'', ''name'' \<mapsto> Some ''EAST'',
     ''img'' \<mapsto> Some ''W64A_0001_01_01_0000.jpg'']"

definition bad_date_entry :: buoy_cam where
  "bad_date_entry = [''id'' \<mapsto> Some ''41001'', ''name'' \<mapsto> Some ''EAST'',
     ''img'' \<mapsto> Some ''W64A_2024_AB_01_1200.jpg'']"

definition example_entry :: buoy_cam where
  "example_entry = [''id'' \<mapsto> Some ''41001'', ''name'' \<mapsto> Some ''EAST'',
     ''img'' \<mapsto> Some ''W64A_2024_01_01_1200.jpg'']"

text \<open>An observation with a wind speed only, a server that answers 404 to everything, and
  a server that answers 200 with a body that is not an image.\<close>

definition example_observation :: Observation where
  "example_observation =
     \<lparr>timestamp = ''2024_01_01_1200'',
      wind_speed_kts = Some 19.4384,
      wind_direction_deg = None,
      gust_speed_kts = None,
      wave_height_m = None,
      dominant_wave_period_s = None,
      average_wave_period_s = None,
      mean_wave_direction_deg = None,
      atmospheric_pressure_hpa = None,
      air_temperature_c = None,
      water_temperature_c = None,
      dewpoint_temperature_c = None,
      visibility_m = None,
      pressure_tendency_hpa = None,
      tide_m = None\<rparr>"

definition not_found_world :: world where
  "not_found_world =
     \<lparr>http_get = (\<lambda>u. Inr \<lparr>status_code = 404, body_text = [], body_content = []\<rparr>),
      image_open = (\<lambda>c. Inl UnidentifiedImageError),
      py_float = float_ten,
      float_str = (\<lambda>x. ''19.4384'')\<rparr>"

definition garbled_world :: world where
  "garbled_world =
     \<lparr>http_get = (\<lambda>u. Inr \<lparr>status_code = 200, body_text = [], body_content = ''<html>''\<rparr>),
      image_open = (\<lambda>c. Inl UnidentifiedImageError),
      py_float = float_ten,
      float_str = (\<lambda>x. ''19.4384'')\<rparr>"

text \<open>A run of the pipeline: a white composite image of the expected size, the table of
  station 41001 with one reading at 12:00, a server that has this table and the image of
  12:00 and nothing else, a recogniser, the store built from the table, and the request
  for the image taken \<open>10 k\<close> minutes before 12:00.\<close>

definition white_image :: image where
  "white_image = \<lparr>width = 2880, height = 300, luminance = (\<lambda>x y. 255)\<rparr>"

definition example_table :: string where
  "example_table =
     ''#YY MM DD hh mm WSPD'' @ [CHR 0x0A] @ ''#yr mo dy hr mn m/s'' @ [CHR 0x0A]
       @ ''2024 01 01 12 00 10'' @ [CHR 0x0A]"

definition example_world :: world where
  "example_world =
     \<lparr>http_get = (\<lambda>u.
        if u = ''https://www.ndbc.noaa.gov/data/realtime2/41001.txt''
        then Inr \<lparr>status_code = 200, body_text = example_table, body_content = []\<rparr>
        else if u = ''https://www.ndbc.noaa.gov/images/buoycam/W64A_2024_01_01_1200.jpg''
        then Inr \<lparr>status_code = 200, body_text = [], body_content = ''JFIF''\<rparr>
        else Inr \<lparr>status_code = 404, body_text = [], body_content = []\<rparr>),
      image_open = (\<lambda>c. Inr white_image),
      py_float = float_ten,
      float_str = (\<lambda>x. ''19.4384'')\<rparr>"

definition example_ocr :: OCR where
  "example_ocr = \<lparr>readtext = (\<lambda>img. [''270d''])\<rparr>"

definition example_store :: BuoyData where
  "example_store =
     \<lparr>bd_id = Some ''41001'',
      observations = [''2024_01_01_1200'' \<mapsto> example_observation],
      lat_deg = None, lon_deg = None, bd_description = Some ''EAST''\<rparr>"

definition earlier_request :: "int \<Rightarrow> BuoyImageRequest" where
  "earlier_request k = example_request\<lparr>date := 1063995120 - 10 * k\<rparr>"

text \<open>A composite image of the expected size whose first three sub-images have 408, 432
  and 48 black columns out of 480, that is fractions of 0.85, 0.90 and 0.10, and a server
  that answers every request with it.\<close>

definition striped_image :: image where
  "striped_image =
     \<lparr>width = 2880, height = 300,
      luminance = (\<lambda>x y. if x < 408 \<or> (480 \<le> x \<and> x < 912) \<or> (960 \<le> x \<and> x < 1008)
                          then 0 else 255)\<rparr>"

definition striped_world :: world where
  "striped_world =
     \<lparr>http_get = (\<lambda>u. Inr \<lparr>status_code = 200, body_text = [], body_content = ''JFIF''\<rparr>),
      image_open = (\<lambda>c. Inr striped_image),
      py_float = float_ten,
      float_str = (\<lambda>x. ''19.4384'')\<rparr>"

section \<open>Properties\<close>

declare str_nat.simps [simp del]

subsection \<open>Typed extraction\<close>

text \<open>
  Claim C6. \<^verbatim>\<open>get_float\<close> returns \<^verbatim>\<open>None\<close> exactly when the key is absent from the row or
  its value is the sentinel \<^verbatim>\<open>"MM"\<close>. For any other value that \<^verbatim>\<open>float\<close> parses, it
  returns the parsed number, with the conversion applied when one is given; a value that
  \<^verbatim>\<open>float\<close> does not parse raises \<^verbatim>\<open>ValueError\<close>, so nothing is returned for it. The
  value \<^verbatim>\<open>"10"\<close> under the conversion from metres per second to knots gives 19.4384.
\<close>

theorem get_float_spec:
  "(get_float pf row key cf = Inr None
      \<longleftrightarrow> (row key = None \<or> row key = Some MISSING_DATA_INDICATOR))
   \<and> (\<forall>v x. row key = Some v \<and> v \<noteq> MISSING_DATA_INDICATOR \<and> pf v = Some x \<longrightarrow>
         get_float pf row key cf = Inr (Some (case cf of None \<Rightarrow> x | Some f \<Rightarrow> f x)))
   \<and> (\<forall>v. row key = Some v \<and> v \<noteq> MISSING_DATA_INDICATOR \<and> pf v = None \<longrightarrow>
         get_float pf row key cf = Inl ValueError)
   \<and> (pf ''10'' = Some 10 \<longrightarrow>
         get_float pf [''WSPD'' \<mapsto> ''10''] ''WSPD'' (Some mps_to_kts) = Inr (Some 19.4384))"
  by (auto simp: get_float_def MISSING_DATA_INDICATOR_def mps_to_kts_def split: option.splits)

theorem get_float_spec_witness:
  "get_float float_ten [''WSPD'' \<mapsto> ''10''] ''WSPD'' (Some mps_to_kts) = Inr (Some 19.4384)
   \<and> get_float float_ten [''WSPD'' \<mapsto> ''10''] ''WSPD'' None = Inr (Some 10)
   \<and> get_float float_ten [''WSPD'' \<mapsto> ''MM''] ''WSPD'' (Some mps_to_kts) = Inr None
   \<and> get_float float_ten [''WSPD'' \<mapsto> ''10''] ''GST'' (Some mps_to_kts) = Inr None
   \<and> get_float float_ten [''WSPD'' \<mapsto> ''ten''] ''WSPD'' (Some mps_to_kts) = Inl ValueError"
  using get_float_spec [of float_ten "[''WSPD'' \<mapsto> ''10'']" "''WSPD''" "Some mps_to_kts"]
    get_float_spec [of float_ten "[''WSPD'' \<mapsto> ''10'']" "''WSPD''" None]
    get_float_spec [of float_ten "[''WSPD'' \<mapsto> ''MM'']" "''WSPD''" "Some mps_to_kts"]
    get_float_spec [of float_ten "[''WSPD'' \<mapsto> ''10'']" "''GST''" "Some mps_to_kts"]
    get_float_spec [of float_ten "[''WSPD'' \<mapsto> ''ten'']" "''WSPD''" "Some mps_to_kts"]
  by (simp add: MISSING_DATA_INDICATOR_def float_ten_def)

subsection \<open>The table parser\<close>

text \<open>A table of fewer than three lines is refused.\<close>

lemma extract_table_data_too_short:
  assumes "get u = Inr resp" and "status_code resp = 200"
    and "length (py_split_char CHR 0x0A (body_text resp)) < 3"
  shows "extract_table_data get u = Inl ValueError"
  using assms by (simp add: extract_table_data_def Let_def)

lemma fill_entry_short:
  "hs \<noteq> [] \<Longrightarrow> length vs < n + length hs \<Longrightarrow> fill_entry entry (enumerate n hs) vs = Inl IndexError"
proof (induction hs arbitrary: n entry)
  case Nil
  then show ?case by simp
next
  case (Cons h hs)
  show ?case
  proof (cases "n < length vs")
    case True
    with Cons.prems have "hs \<noteq> []" "length vs < Suc n + length hs" by auto
    then have "fill_entry (entry(h \<mapsto> vs ! n)) (enumerate (Suc n) hs) vs = Inl IndexError"
      by (rule Cons.IH)
    with True show ?thesis by simp
  next
    case False
    then show ?thesis by simp
  qed
qed

lemma fill_entry_ok:
  "n + length hs \<le> length vs \<Longrightarrow>
   \<exists>m. fill_entry entry (enumerate n hs) vs = Inr m \<and> dom m = dom entry \<union> set hs \<and>
       (\<forall>k. k \<notin> set hs \<longrightarrow> m k = entry k) \<and>
       (\<forall>i<length hs. hs ! i \<notin> set (drop (Suc i) hs) \<longrightarrow> m (hs ! i) = Some (vs ! (n + i)))"
proof (induction hs arbitrary: n entry)
  case Nil
  then show ?case by simp
next
  case (Cons h hs)
  from Cons.prems have n: "n < length vs" and le: "Suc n + length hs \<le> length vs" by auto
  from Cons.IH [OF le, of "entry(h \<mapsto> vs ! n)"] obtain m where
    m: "fill_entry (entry(h \<mapsto> vs ! n)) (enumerate (Suc n) hs) vs = Inr m"
    and d: "dom m = dom (entry(h \<mapsto> vs ! n)) \<union> set hs"
    and k: "\<And>k. k \<notin> set hs \<Longrightarrow> m k = (entry(h \<mapsto> vs ! n)) k"
    and p: "\<And>i. i < length hs \<Longrightarrow> hs ! i \<notin> set (drop (Suc i) hs) \<Longrightarrow> m (hs ! i) = Some (vs ! (Suc n + i))"
    by blast
  have 1: "fill_entry entry (enumerate n (h # hs)) vs = Inr m" using n m by simp
  have 2: "dom m = dom entry \<union> set (h # hs)" using d by auto
  have 3: "\<forall>k. k \<notin> set (h # hs) \<longrightarrow> m k = entry k" using k by auto
  have 4: "\<forall>i<length (h # hs). (h # hs) ! i \<notin> set (drop (Suc i) (h # hs)) \<longrightarrow>
             m ((h # hs) ! i) = Some (vs ! (n + i))"
  proof (intro allI impI)
    fix i assume i: "i < length (h # hs)" and nd: "(h # hs) ! i \<notin> set (drop (Suc i) (h # hs))"
    show "m ((h # hs) ! i) = Some (vs ! (n + i))"
    proof (cases i)
      case 0
      with nd have "h \<notin> set hs" by simp
      then show ?thesis using k 0 by simp
    next
      case (Suc j)
      with i nd have "j < length hs" "hs ! j \<notin> set (drop (Suc j) hs)" by auto
      then show ?thesis using p Suc by simp
    qed
  qed
  from 1 2 3 4 show ?case by blast
qed

lemma fill_entry_header:
  assumes "length header \<le> length vs"
  shows "\<exists>m. fill_entry Map.empty (enumerate 0 header) vs = Inr m \<and> row_entry_ok header vs m"
  using fill_entry_ok [of 0 header vs Map.empty] assms
  unfolding row_entry_ok_def by auto

lemma table_rows_ok:
  "\<forall>r\<in>set rows. py_split_ws r = [] \<or> length header \<le> length (py_split_ws r) \<Longrightarrow>
   \<exists>es. table_rows header rows result = Inr (result @ es) \<and>
        list_all2 (\<lambda>r e. row_entry_ok header (py_split_ws r) e)
          (filter (\<lambda>r. py_split_ws r \<noteq> []) rows) es"
proof (induction rows arbitrary: result)
  case Nil
  then show ?case by simp
next
  case (Cons r rows)
  from Cons.prems have rest: "\<forall>r\<in>set rows. py_split_ws r = [] \<or> length header \<le> length (py_split_ws r)"
    by simp
  show ?case
  proof (cases "py_split_ws r = []")
    case True
    with Cons.IH [OF rest, of result] show ?thesis by simp
  next
    case False
    with Cons.prems have "length header \<le> length (py_split_ws r)" by simp
    from fill_entry_header [OF this] obtain m where
      m: "fill_entry Map.empty (enumerate 0 header) (py_split_ws r) = Inr m"
      and ok: "row_entry_ok header (py_split_ws r) m" by blast
    from Cons.IH [OF rest, of "result @ [m]"] obtain es where
      es: "table_rows header rows (result @ [m]) = Inr ((result @ [m]) @ es)"
      and all: "list_all2 (\<lambda>r e. row_entry_ok header (py_split_ws r) e)
          (filter (\<lambda>r. py_split_ws r \<noteq> []) rows) es" by blast
    have "table_rows header (r # rows) result = Inr (result @ (m # es))"
      using False m es by simp
    moreover have "list_all2 (\<lambda>r e. row_entry_ok header (py_split_ws r) e)
          (filter (\<lambda>r. py_split_ws r \<noteq> []) (r # rows)) (m # es)"
      using False ok all by simp
    ultimately show ?thesis by blast
  qed
qed

lemma table_rows_short:
  "\<exists>r\<in>set rows. 0 < length (py_split_ws r) \<and> length (py_split_ws r) < length header \<Longrightarrow>
   table_rows header rows result = Inl IndexError"
proof (induction rows arbitrary: result)
  case Nil
  then show ?case by simp
next
  case (Cons r rows)
  show ?case
  proof (cases "py_split_ws r = []")
    case True
    with Cons.prems have "\<exists>r\<in>set rows. 0 < length (py_split_ws r) \<and> length (py_split_ws r) < length header"
      by auto
    from Cons.IH [OF this, of result] True show ?thesis by simp
  next
    case False
    show ?thesis
    proof (cases "length (py_split_ws r) < length header")
      case True
      then have "header \<noteq> []" by auto
      from fill_entry_short [OF this, of "py_split_ws r" 0 Map.empty] True
      have "fill_entry Map.empty (enumerate 0 header) (py_split_ws r) = Inl IndexError" by simp
      with False show ?thesis by simp
    next
      case geq: False
      then have "length header \<le> length (py_split_ws r)" by simp
      from fill_entry_header [OF this] obtain m where
        m: "fill_entry Map.empty (enumerate 0 header) (py_split_ws r) = Inr m" by blast
      from Cons.prems geq have "\<exists>r\<in>set rows. 0 < length (py_split_ws r) \<and> length (py_split_ws r) < length header"
        by auto
      from Cons.IH [OF this, of "result @ [m]"] False m show ?thesis by simp
    qed
  qed
qed

text \<open>
  Claim C3, as amended. For a table of at least three lines with a header of \<open>N\<close> tokens:
  a data row with \<open>K\<close> tokens, \<open>0 < K < N\<close>, makes the parser raise \<^verbatim>\<open>IndexError\<close>, and no
  record is returned; when every data row has no token or at least \<open>N\<close> tokens, the parser
  returns one record for each row that has tokens, in order, with exactly the header's
  keys, and the rows without tokens are skipped.
\<close>

theorem extract_table_data_rows:
  assumes "get u = Inr resp" and "status_code resp = 200"
    and "lines = py_split_char CHR 0x0A (body_text resp)" and "3 \<le> length lines"
    and "header = py_split_ws (drop 1 (lines ! 0))"
  shows "((\<exists>r\<in>set (drop 2 lines). 0 < length (py_split_ws r) \<and> length (py_split_ws r) < length header)
            \<longrightarrow> extract_table_data get u = Inl IndexError)
       \<and> ((\<forall>r\<in>set (drop 2 lines). py_split_ws r = [] \<or> length header \<le> length (py_split_ws r))
            \<longrightarrow> (\<exists>entries. extract_table_data get u = Inr (Some entries) \<and>
                   list_all2 (\<lambda>r e. row_entry_ok header (py_split_ws r) e)
                     (filter (\<lambda>r. py_split_ws r \<noteq> []) (drop 2 lines)) entries))"
proof -
  have unfold: "extract_table_data get u = map_sum id Some (table_rows header (drop 2 lines) [])"
    using assms by (simp add: extract_table_data_def Let_def)
  show ?thesis
  proof (intro conjI impI)
    assume "\<exists>r\<in>set (drop 2 lines). 0 < length (py_split_ws r) \<and> length (py_split_ws r) < length header"
    from table_rows_short [OF this, of "[]"] show "extract_table_data get u = Inl IndexError"
      by (simp add: unfold)
  next
    assume "\<forall>r\<in>set (drop 2 lines). py_split_ws r = [] \<or> length header \<le> length (py_split_ws r)"
    from table_rows_ok [OF this, of "[]"] show "\<exists>entries. extract_table_data get u = Inr (Some entries) \<and>
                   list_all2 (\<lambda>r e. row_entry_ok header (py_split_ws r) e)
                     (filter (\<lambda>r. py_split_ws r \<noteq> []) (drop 2 lines)) entries"
      by (auto simp: unfold)
  qed
qed

theorem extract_table_data_rows_witness:
  "extract_table_data (get_table table_short) ''u'' = Inl IndexError
   \<and> (\<exists>entries. extract_table_data (get_table table_full) ''u'' = Inr (Some entries)
         \<and> list_all2 (\<lambda>r e. row_entry_ok [''YY'', ''MM'', ''DD''] (py_split_ws r) e)
              [''2024 01 02''] entries)"
proof -
  have short_lines:
    "py_split_char CHR 0x0A table_short = [''#YY MM DD'', ''#yr mo dy'', ''2024 01'']"
    by code_simp
  have full_lines:
    "py_split_char CHR 0x0A table_full = [''#YY MM DD'', ''#yr mo dy'', ''2024 01 02'', '' '', []]"
    by code_simp
  have header: "py_split_ws ''YY MM DD'' = [''YY'', ''MM'', ''DD'']" by code_simp
  have r1: "py_split_ws ''2024 01'' = [''2024'', ''01'']" by code_simp
  have r2: "py_split_ws ''2024 01 02'' = [''2024'', ''01'', ''02'']" by code_simp
  have r3: "py_split_ws '' '' = []" by code_simp
  have r4: "py_split_ws [] = []" by code_simp
  have a: "extract_table_data (get_table table_short) ''u'' = Inl IndexError"
    using extract_table_data_rows [of "get_table table_short" "''u''"
        "\<lparr>status_code = 200, body_text = table_short, body_content = []\<rparr>"
        "[''#YY MM DD'', ''#yr mo dy'', ''2024 01'']" "[''YY'', ''MM'', ''DD'']"]
    by (simp add: get_table_def short_lines header r1)
  have b: "\<exists>entries. extract_table_data (get_table table_full) ''u'' = Inr (Some entries)
         \<and> list_all2 (\<lambda>r e. row_entry_ok [''YY'', ''MM'', ''DD''] (py_split_ws r) e)
              [''2024 01 02''] entries"
    using extract_table_data_rows [of "get_table table_full" "''u''"
        "\<lparr>status_code = 200, body_text = table_full, body_content = []\<rparr>"
        "[''#YY MM DD'', ''#yr mo dy'', ''2024 01 02'', '' '', []]" "[''YY'', ''MM'', ''DD'']"]
    by (simp add: get_table_def full_lines header r2 r3 r4)
  from a b show ?thesis by simp
qed

text \<open>The claim as stated fails: the row \<^verbatim>\<open>2024 01\<close> under the header \<^verbatim>\<open>YY MM DD\<close> gives
  no record with the keys \<^verbatim>\<open>YY\<close> and \<^verbatim>\<open>MM\<close>; the parser raises.\<close>

theorem short_row_counterexample:
  "extract_table_data (get_table table_short) ''u'' = Inl IndexError"
  by (simp add: extract_table_data_def get_table_def table_short_def py_split_char_def
      py_split_ws_def is_space_def enumerate_eq_zip)

subsection \<open>The sub-images\<close>

text \<open>A composite image of the expected size is split into six sub-images of 480 by 270
  pixels; sub-image \<open>i\<close> shows the columns from \<open>480 i\<close> on.\<close>

lemma split_image_six:
  assumes "width img = IMAGE_WIDTH" and "height img = IMAGE_HEIGHT"
  shows "length (split_image img) = 6
    \<and> (\<forall>i<6. width (split_image img ! i) = 480 \<and> height (split_image img ! i) = 270
          \<and> (\<forall>x<480. \<forall>y<270.
                luminance (split_image img ! i) x y = luminance img (i * 480 + x) y))"
  using assms
  by (auto simp: split_image_def crop_def BUOYCAM_IMAGE_ROW_LENGTH_def SUB_IMAGE_WIDTH_def
      SUB_IMAGE_HEIGHT_def IMAGE_WIDTH_def IMAGE_HEIGHT_def)

subsection \<open>The blank-frame threshold\<close>

lemma digit_char_inj: "a < 10 \<Longrightarrow> b < 10 \<Longrightarrow> digit_char a = digit_char b \<Longrightarrow> a = b"
proof -
  assume a: "a < 10" and b: "b < 10" and eq: "digit_char a = digit_char b"
  from eq have "(of_char (digit_char a) :: nat) = of_char (digit_char b)" by simp
  then have "(48 + a) mod 256 = (48 + b) mod 256" by (simp add: digit_char_def)
  with a b show "a = b" by simp
qed

lemma str_nat_small: "n < 10 \<Longrightarrow> str_nat n = [digit_char n]"
  by (subst str_nat.simps) simp

lemma str_nat_big: "\<not> n < 10 \<Longrightarrow> str_nat n = str_nat (n div 10) @ [digit_char (n mod 10)]"
  by (subst str_nat.simps) simp

lemma str_nat_not_Nil: "str_nat n \<noteq> []"
  by (cases "n < 10") (simp_all add: str_nat_small str_nat_big)

lemma str_nat_length: "length (str_nat n) = Suc 0 \<longleftrightarrow> n < 10"
  using str_nat_not_Nil [of "n div 10"]
  by (cases "n < 10") (simp_all add: str_nat_small str_nat_big)

lemma str_nat_inj: "str_nat i = str_nat j \<Longrightarrow> i = j"
proof (induction i arbitrary: j rule: str_nat.induct)
  case (1 n)
  show ?case
  proof (cases "n < 10")
    case True
    then have "length (str_nat n) = 1" by (simp add: str_nat_length)
    with "1.prems" have "length (str_nat j) = 1" by simp
    then have j: "j < 10" by (simp add: str_nat_length)
    from True j "1.prems" have "digit_char n = digit_char j" by (simp add: str_nat_small)
    with True j show ?thesis by (rule digit_char_inj)
  next
    case False
    then have "length (str_nat n) \<noteq> 1" by (simp add: str_nat_length)
    with "1.prems" have "length (str_nat j) \<noteq> 1" by simp
    then have j: "\<not> j < 10" by (simp add: str_nat_length)
    from False have n_eq: "str_nat n = str_nat (n div 10) @ [digit_char (n mod 10)]" by (rule str_nat_big)
    from j have j_eq: "str_nat j = str_nat (j div 10) @ [digit_char (j mod 10)]" by (rule str_nat_big)
    from "1.prems" n_eq j_eq have
      front: "str_nat (n div 10) = str_nat (j div 10)"
      and units: "digit_char (n mod 10) = digit_char (j mod 10)" by simp_all
    from "1.IH" [OF False front] have "n div 10 = j div 10" .
    moreover from units have "n mod 10 = j mod 10" by (intro digit_char_inj) simp_all
    ultimately show ?thesis by (metis div_mult_mod_eq)
  qed
qed

lemma sub_image_path_inj:
  "save_image_full_path request (str_nat i) = save_image_full_path request (str_nat j) \<Longrightarrow> i = j"
proof -
  assume eq: "save_image_full_path request (str_nat i) = save_image_full_path request (str_nat j)"
  from eq have "str_nat i = str_nat j"
    by (simp add: save_image_full_path_def str_nat_not_Nil)
  then show ?thesis by (rule str_nat_inj)
qed

lemma save_sub_images_frame:
  "\<forall>(j, s)\<in>set ips. save_image_full_path request (str_nat j) \<noteq> p \<Longrightarrow>
   files (snd (save_sub_images request ips fs)) p = files fs p"
proof (induction ips arbitrary: fs)
  case Nil
  then show ?case by simp
next
  case (Cons a ips)
  obtain j s where a: "a = (j, s)" by (cases a)
  from Cons.prems a have here: "save_image_full_path request (str_nat j) \<noteq> p"
    and rest: "\<forall>(j, s)\<in>set ips. save_image_full_path request (str_nat j) \<noteq> p" by auto
  show ?case
  proof (cases "fraction_black s")
    case (Inl e)
    with a show ?thesis by simp
  next
    case (Inr v)
    show ?thesis
    proof (cases "v > FRACTION_BLACK_THRESHOLD")
      case True
      with a Inr Cons.IH [OF rest] show ?thesis by simp
    next
      case False
      with a Inr Cons.IH [OF rest] here show ?thesis by (simp add: save_file_def)
    qed
  qed
qed

lemma enumerate_frame:
  "n < m \<Longrightarrow> \<forall>(j, s)\<in>set (enumerate m xs). save_image_full_path request (str_nat j) \<noteq> save_image_full_path request (str_nat n)"
proof (clarify)
  fix j s
  assume nm: "n < m" and mem: "(j, s) \<in> set (enumerate m xs)"
    and eq: "save_image_full_path request (str_nat j) = save_image_full_path request (str_nat n)"
  from mem have "m \<le> j" by (simp add: in_set_enumerate_eq)
  moreover from eq have "j = n" by (rule sub_image_path_inj)
  ultimately show False using nm by simp
qed

lemma save_sub_images_at:
  "fst (save_sub_images request (enumerate n sub_images) fs) = Inr () \<Longrightarrow>
   i < length sub_images \<Longrightarrow> fraction_black (sub_images ! i) = Inr v \<Longrightarrow>
   files (snd (save_sub_images request (enumerate n sub_images) fs))
     (save_image_full_path request (str_nat (n + i))) =
   (if v > FRACTION_BLACK_THRESHOLD
    then files fs (save_image_full_path request (str_nat (n + i)))
    else Some (ImageFile (sub_images ! i)))"
proof (induction sub_images arbitrary: n i fs)
  case Nil
  then show ?case by simp
next
  case (Cons s rest)
  show ?case
  proof (cases i)
    case 0
    with Cons.prems have fb: "fraction_black s = Inr v" by simp
    have frame: "\<And>fs'. files (snd (save_sub_images request (enumerate (Suc n) rest) fs'))
        (save_image_full_path request (str_nat n)) = files fs' (save_image_full_path request (str_nat n))"
      by (rule save_sub_images_frame) (rule enumerate_frame, simp)
    show ?thesis using 0 fb frame by (simp add: save_file_def)
  next
    case (Suc k)
    from Cons.prems(1) obtain u where fb: "fraction_black s = Inr u"
      by (cases "fraction_black s") simp_all
    define fs' where "fs' = (if u > FRACTION_BLACK_THRESHOLD then fs
      else save_file (save_image_full_path request (str_nat n)) (ImageFile s) fs)"
    have step: "save_sub_images request (enumerate n (s # rest)) fs
      = save_sub_images request (enumerate (Suc n) rest) fs'"
      using fb by (simp add: fs'_def)
    from Cons.prems Suc have k: "k < length rest" and fk: "fraction_black (rest ! k) = Inr v" by simp_all
    from Cons.prems(1) step have ok: "fst (save_sub_images request (enumerate (Suc n) rest) fs') = Inr ()"
      by simp
    have ne: "save_image_full_path request (str_nat n) \<noteq> save_image_full_path request (str_nat (Suc n + k))"
      by (auto dest: sub_image_path_inj)
    then have same: "files fs' (save_image_full_path request (str_nat (Suc n + k)))
        = files fs (save_image_full_path request (str_nat (Suc n + k)))"
      by (simp add: fs'_def save_file_def)
    from Cons.IH [OF ok k fk] same step Suc show ?thesis by (simp)
  qed
qed

lemma length_img_array: "length (img_array img) = height img * width img"
  by (simp add: img_array_def length_concat comp_def sum_list_triv)

lemma fraction_black_defined:
  "0 < width img \<Longrightarrow> 0 < height img \<Longrightarrow> \<exists>v. fraction_black img = Inr v"
proof -
  assume "0 < width img" and "0 < height img"
  then have "length (img_array img) \<noteq> 0" by (simp add: length_img_array)
  then have "img_array img \<noteq> []" by simp
  then show ?thesis by (simp add: fraction_black_def Let_def)
qed

lemma save_sub_images_ok:
  "\<forall>(j, s)\<in>set ips. 0 < width s \<and> 0 < height s \<Longrightarrow> fst (save_sub_images request ips fs) = Inr ()"
proof (induction ips arbitrary: fs)
  case Nil
  then show ?case by simp
next
  case (Cons a ips)
  obtain j s where a: "a = (j, s)" by (cases a)
  from Cons.prems a obtain v where v: "fraction_black s = Inr v"
    using fraction_black_defined [of s] by auto
  from Cons.prems have "\<forall>(j, s)\<in>set ips. 0 < width s \<and> 0 < height s" by simp
  from Cons.IH [OF this] a v show ?case by simp
qed

lemma split_image_sizes:
  "\<forall>(j, s)\<in>set (enumerate n (split_image img)). 0 < width s \<and> 0 < height s"
  by (auto simp: split_image_def crop_def in_set_enumerate_eq SUB_IMAGE_WIDTH_def
      SUB_IMAGE_HEIGHT_def)

lemma count_below: "k \<le> w \<Longrightarrow> length (filter (\<lambda>x. x < k) [0..<w]) = k"
proof -
  assume "k \<le> w"
  then have "[0..<w] = [0..<k] @ [k..<w]" by (metis le_add_diff_inverse upt_add_eq_append zero_le)
  then have "filter (\<lambda>x. x < k) [0..<w] = [0..<k]" by simp
  then show ?thesis by simp
qed

lemma fraction_black_columns:
  assumes cols: "\<And>x y. x < width img \<Longrightarrow> y < height img \<Longrightarrow> (luminance img x y = 0) = (x < k)"
    and k: "k \<le> width img" and w: "0 < width img" and h: "0 < height img"
  shows "fraction_black img = Inr (real k / real (width img))"
proof -
  have row: "\<And>y. y < height img \<Longrightarrow>
      length (filter (\<lambda>p. p = 0) (map (\<lambda>x. luminance img x y) [0..<width img])) = k"
  proof -
    fix y assume y: "y < height img"
    have "filter ((\<lambda>p. p = 0) \<circ> (\<lambda>x. luminance img x y)) [0..<width img]
        = filter (\<lambda>x. x < k) [0..<width img]"
      by (rule filter_cong) (simp_all add: cols y)
    then show "length (filter (\<lambda>p. p = 0) (map (\<lambda>x. luminance img x y) [0..<width img])) = k"
      by (simp only: filter_map length_map count_below [OF k])
  qed
  have "length (filter (\<lambda>p. p = 0) (img_array img))
      = sum_list (map (\<lambda>y. length (filter (\<lambda>p. p = 0) (map (\<lambda>x. luminance img x y) [0..<width img])))
          [0..<height img])"
    by (simp add: img_array_def filter_concat length_concat comp_def)
  also have "\<dots> = sum_list (map (\<lambda>y. k) [0..<height img])"
    by (rule arg_cong [where f = sum_list], rule map_cong [OF refl], rule row, simp)
  also have "\<dots> = height img * k" by (simp add: sum_list_triv)
  finally have count: "length (filter (\<lambda>p. p = 0) (img_array img)) = height img * k" .
  have len: "length (img_array img) = height img * width img" by (rule length_img_array)
  have ne: "img_array img \<noteq> []" using len w h by auto
  show ?thesis using w h by (simp add: fraction_black_def Let_def ne count len)
qed

lemma full_path_not_sub:
  "save_image_full_path request ''full'' \<noteq> save_image_full_path request (str_nat i)"
proof
  assume "save_image_full_path request ''full'' = save_image_full_path request (str_nat i)"
  then have eq: "str_nat i = ''full''"
    by (simp add: save_image_full_path_def str_nat_not_Nil)
  show False
  proof (cases "i < 10")
    case True
    with eq show False by (simp add: str_nat_small)
  next
    case False
    from eq have "last (str_nat i) = CHR ''l''" by simp
    with False have "digit_char (i mod 10) = CHR ''l''" by (simp add: str_nat_big)
    then have "(of_char (digit_char (i mod 10)) :: nat) = of_char CHR ''l''" by simp
    then show False by (simp add: digit_char_def)
  qed
qed

lemma observation_path_not_sub:
  "save_directory request @ ''/observation.txt'' \<noteq> save_image_full_path request postfix"
proof
  assume "save_directory request @ ''/observation.txt'' = save_image_full_path request postfix"
  then have "last (save_directory request @ ''/observation.txt'')
      = last (save_image_full_path request postfix)" by simp
  then show False by (simp add: save_image_full_path_def)
qed

text \<open>
  Claim C4, as amended. The threshold is strict. When the fetch gives a composite image of
  the expected size, sub-image \<open>i\<close> is passed over if its fraction of black pixels is
  greater than 0.85, and then the path of its index keeps what it held; otherwise the
  sub-image is saved under that path. So a sub-image with fraction exactly 0.85 is saved,
  one with fraction 0.90 is not, and one with fraction 0.10 is saved.
\<close>

theorem fetch_sub_image_threshold:
  assumes img: "get_image_file w (url request) = Inr (Some img)"
    and size: "width img = IMAGE_WIDTH" "height img = IMAGE_HEIGHT"
    and i: "i < 6"
    and v: "fraction_black (split_image img ! i) = Inr v"
  shows "files (snd (fetch_and_process_image w request buoy_data output_dir ocr_reader fs))
           (save_image_full_path request (str_nat i)) =
         (if v > 85 / 100 then files fs (save_image_full_path request (str_nat i))
          else Some (ImageFile (split_image img ! i)))"
proof -
  let ?p = "save_image_full_path request (str_nat i)"
  define fs2 where "fs2 = save_file (save_image_full_path request ''full'') (ImageFile img)
          (makedirs (save_directory request) fs)"
  have fs2: "files fs2 ?p = files fs ?p"
    using full_path_not_sub [of request i] by (simp add: fs2_def save_file_def makedirs_def)
  have ok: "fst (save_sub_images request (enumerate 0 (split_image img)) fs2) = Inr ()"
    using split_image_sizes by (rule save_sub_images_ok)
  then obtain fs3 where loop: "save_sub_images request (enumerate 0 (split_image img)) fs2 = (Inr (), fs3)"
    by (cases "save_sub_images request (enumerate 0 (split_image img)) fs2") simp
  have len: "i < length (split_image img)"
    using i by (simp add: split_image_def BUOYCAM_IMAGE_ROW_LENGTH_def)
  from save_sub_images_at [OF ok len v] loop fs2
  have fs3: "files fs3 ?p = (if v > 85 / 100 then files fs ?p else Some (ImageFile (split_image img ! i)))"
    by (simp add: FRACTION_BLACK_THRESHOLD_def)
  have "files (snd (fetch_and_process_image w request buoy_data output_dir ocr_reader fs)) ?p
      = files fs3 ?p"
    using img size loop observation_path_not_sub [of request "str_nat i"]
    by (simp add: fetch_and_process_image_def Let_def fs2_def save_file_def
        split: sum.splits option.splits)
  with fs3 show ?thesis by simp
qed

lemma striped_fractions:
  "fraction_black (split_image striped_image ! 0) = Inr (85 / 100)"
  "fraction_black (split_image striped_image ! 1) = Inr (90 / 100)"
  "fraction_black (split_image striped_image ! 2) = Inr (10 / 100)"
proof -
  have s0: "split_image striped_image ! 0 = crop striped_image 0 0 480 270"
    and s1: "split_image striped_image ! 1 = crop striped_image 480 0 960 270"
    and s2: "split_image striped_image ! 2 = crop striped_image 960 0 1440 270"
    by (simp_all add: split_image_def BUOYCAM_IMAGE_ROW_LENGTH_def SUB_IMAGE_WIDTH_def
        SUB_IMAGE_HEIGHT_def)
  have "fraction_black (crop striped_image 0 0 480 270) = Inr (real 408 / real (width (crop striped_image 0 0 480 270)))"
    by (rule fraction_black_columns) (auto simp: crop_def striped_image_def)
  then show "fraction_black (split_image striped_image ! 0) = Inr (85 / 100)"
    unfolding s0 by (simp add: crop_def)
  have "fraction_black (crop striped_image 480 0 960 270) = Inr (real 432 / real (width (crop striped_image 480 0 960 270)))"
    by (rule fraction_black_columns) (auto simp: crop_def striped_image_def)
  then show "fraction_black (split_image striped_image ! 1) = Inr (90 / 100)"
    unfolding s1 by (simp add: crop_def)
  have "fraction_black (crop striped_image 960 0 1440 270) = Inr (real 48 / real (width (crop striped_image 960 0 1440 270)))"
    by (rule fraction_black_columns) (auto simp: crop_def striped_image_def)
  then show "fraction_black (split_image striped_image ! 2) = Inr (10 / 100)"
    unfolding s2 by (simp add: crop_def)
qed

lemma striped_fetch:
  "get_image_file striped_world (url example_request) = Inr (Some striped_image)"
  "width striped_image = IMAGE_WIDTH" "height striped_image = IMAGE_HEIGHT"
  by (simp_all add: get_image_file_def striped_world_def striped_image_def IMAGE_WIDTH_def
      IMAGE_HEIGHT_def)

lemma example_sub_paths:
  "save_image_full_path example_request (str_nat 0)
     = ''images/41001/2024_01_01_1200/W64A_2024_01_01_1200_0.jpg''"
  "save_image_full_path example_request (str_nat (Suc 0))
     = ''images/41001/2024_01_01_1200/W64A_2024_01_01_1200_1.jpg''"
  "save_image_full_path example_request (str_nat 2)
     = ''images/41001/2024_01_01_1200/W64A_2024_01_01_1200_2.jpg''"
  by code_simp+

theorem fetch_sub_image_threshold_witness:
  "fraction_black (split_image striped_image ! 0) = Inr (85 / 100)
   \<and> fraction_black (split_image striped_image ! 1) = Inr (90 / 100)
   \<and> fraction_black (split_image striped_image ! 2) = Inr (10 / 100)
   \<and> files (snd (fetch_and_process_image striped_world example_request example_store
         (StrArg ''images'') None empty_fs))
       ''images/41001/2024_01_01_1200/W64A_2024_01_01_1200_0.jpg''
       = Some (ImageFile (split_image striped_image ! 0))
   \<and> files (snd (fetch_and_process_image striped_world example_request example_store
         (StrArg ''images'') None empty_fs))
       ''images/41001/2024_01_01_1200/W64A_2024_01_01_1200_1.jpg'' = None
   \<and> files (snd (fetch_and_process_image striped_world example_request example_store
         (StrArg ''images'') None empty_fs))
       ''images/41001/2024_01_01_1200/W64A_2024_01_01_1200_2.jpg''
       = Some (ImageFile (split_image striped_image ! 2))"
proof -
  have i: "(0::nat) < 6" "(1::nat) < 6" "(2::nat) < 6" by simp_all
  note t = fetch_sub_image_threshold [where w = striped_world and request = example_request
      and img = striped_image and buoy_data = example_store and output_dir = "StrArg ''images''"
      and ocr_reader = None and fs = empty_fs, OF striped_fetch]
  from t [OF i(1) striped_fractions(1)] t [OF i(2) striped_fractions(2)]
    t [OF i(3) striped_fractions(3)] striped_fractions
  show ?thesis by (simp add: example_sub_paths empty_fs_def)
qed

text \<open>The claim as stated fails: the first sub-image of the striped image has 408 black
  columns out of 480, a fraction of exactly 0.85, and it is saved.\<close>

theorem blank_threshold_counterexample:
  "fraction_black (split_image striped_image ! 0) = Inr (85 / 100)
   \<and> files (snd (fetch_and_process_image striped_world example_request example_store
         (StrArg ''images'') None empty_fs))
       ''images/41001/2024_01_01_1200/W64A_2024_01_01_1200_0.jpg''
       = Some (ImageFile (split_image striped_image ! 0))"
proof -
  have ok: "fst (save_sub_images example_request (enumerate 0 (split_image striped_image))
      (save_file (save_image_full_path example_request ''full'') (ImageFile striped_image)
          (makedirs (save_directory example_request) empty_fs))) = Inr ()"
    using split_image_sizes by (rule save_sub_images_ok)
  have len: "0 < length (split_image striped_image)"
    by (simp add: split_image_def BUOYCAM_IMAGE_ROW_LENGTH_def)
  from save_sub_images_at [OF ok len striped_fractions(1)]
  have saved: "files (snd (save_sub_images example_request (enumerate 0 (split_image striped_image))
      (save_file (save_image_full_path example_request ''full'') (ImageFile striped_image)
          (makedirs (save_directory example_request) empty_fs))))
      (save_image_full_path example_request (str_nat 0))
      = Some (ImageFile (split_image striped_image ! 0))"
    by (simp add: FRACTION_BLACK_THRESHOLD_def)
  obtain fs3 where loop: "save_sub_images example_request (enumerate 0 (split_image striped_image))
      (save_file (save_image_full_path example_request ''full'') (ImageFile striped_image)
          (makedirs (save_directory example_request) empty_fs)) = (Inr (), fs3)"
    using ok by (cases "save_sub_images example_request (enumerate 0 (split_image striped_image))
      (save_file (save_image_full_path example_request ''full'') (ImageFile striped_image)
          (makedirs (save_directory example_request) empty_fs))") simp
  have "files (snd (fetch_and_process_image striped_world example_request example_store
         (StrArg ''images'') None empty_fs)) (save_image_full_path example_request (str_nat 0))
      = files fs3 (save_image_full_path example_request (str_nat 0))"
    using striped_fetch loop observation_path_not_sub [of example_request "str_nat 0"]
    by (simp add: fetch_and_process_image_def Let_def save_file_def split: option.splits)
  with saved loop striped_fractions(1) show ?thesis by (simp add: example_sub_paths)
qed

subsection \<open>The request generator\<close>

lemma div_step:
  fixes y k :: int
  assumes k: "0 < k"
  shows "y div k = (y - 1) div k + (if y mod k = 0 then 1 else 0)"
proof -
  define q where "q = y div k"
  define r where "r = y mod k"
  have y: "y = k * q + r" by (simp add: q_def r_def)
  have r: "0 \<le> r" "r < k" using k by (simp_all add: r_def)
  show ?thesis
  proof (cases "r = 0")
    case True
    have e: "y - 1 = k * (q - 1) + (k - 1)" using y True by (simp add: algebra_simps)
    have "(y - 1) div k = q - 1" unfolding e using k by simp
    then show ?thesis using True by (simp add: q_def r_def)
  next
    case False
    have e: "y - 1 = k * q + (r - 1)" using y by simp
    have "(y - 1) div k = q" unfolding e using k r False by (simp add: div_pos_pos_trivial)
    then show ?thesis using False by (simp add: q_def r_def)
  qed
qed

lemma mod100_4: "(y::int) mod 100 = 0 \<Longrightarrow> y mod 4 = 0"
proof -
  assume z: "y mod 100 = 0"
  have "y mod 4 = (y mod 100) mod 4" by (simp add: mod_mod_cancel)
  with z show ?thesis by simp
qed

lemma mod400_100: "(y::int) mod 400 = 0 \<Longrightarrow> y mod 100 = 0"
proof -
  assume z: "y mod 400 = 0"
  have "y mod 100 = (y mod 400) mod 100" by (simp add: mod_mod_cancel)
  with z show ?thesis by simp
qed

lemma days_before_year_step:
  "days_before_year (y + 1) = days_before_year y + 365 + (if is_leap y then 1 else 0)"
proof -
  have a: "y div 4 = (y - 1) div 4 + (if y mod 4 = 0 then 1 else 0)" by (rule div_step) simp
  have b: "y div 100 = (y - 1) div 100 + (if y mod 100 = 0 then 1 else 0)" by (rule div_step) simp
  have c: "y div 400 = (y - 1) div 400 + (if y mod 400 = 0 then 1 else 0)" by (rule div_step) simp
  have "days_before_year (y + 1) = y * 365 + y div 4 - y div 100 + y div 400"
    by (simp add: days_before_year_def)
  also have "\<dots> = days_before_year y + 365
      + (if y mod 4 = 0 then 1 else 0) - (if y mod 100 = 0 then 1 else 0)
      + (if y mod 400 = 0 then 1 else 0)"
    unfolding days_before_year_def Let_def a b c by (simp only: algebra_simps)
  also have "\<dots> = days_before_year y + 365 + (if is_leap y then 1 else 0)"
  proof (cases "y mod 4 = 0")
    case False
    with mod100_4 [of y] mod400_100 [of y] show ?thesis by (auto simp: is_leap_def)
  next
    case four: True
    show ?thesis
    proof (cases "y mod 100 = 0")
      case False
      with four mod400_100 [of y] show ?thesis by (auto simp: is_leap_def)
    next
      case True
      with four show ?thesis by (simp add: is_leap_def)
    qed
  qed
  finally show ?thesis .
qed


lemma days_before_year_mono: "y \<le> z \<Longrightarrow> days_before_year y \<le> days_before_year z"
proof (induction z rule: int_ge_induct)
  case base
  show ?case by simp
next
  case (step i)
  have "days_before_year (i + 1) = days_before_year i + 365 + (if is_leap i then 1 else 0)"
    by (rule days_before_year_step)
  with step.IH show ?case by (simp split: if_splits)
qed

lemma days_before_year_bound:
  assumes "1 \<le> y" "y \<le> 9999"
  shows "0 \<le> days_before_year y \<and>
   days_before_year y + 365 + (if is_leap y then 1 else 0) \<le> 3652059"
proof -
  have one: "days_before_year 1 = 0" by (simp add: days_before_year_def)
  have top: "days_before_year 10000 = 3652059" by (simp add: days_before_year_def)
  from assms(1) days_before_year_mono [of 1 y] one have lo: "0 \<le> days_before_year y" by simp
  from assms(2) days_before_year_mono [of "y + 1" 10000] top
  have "days_before_year (y + 1) \<le> 3652059" by simp
  then have "days_before_year y + 365 + (if is_leap y then 1 else 0) \<le> 3652059"
    by (simp only: days_before_year_step)
  with lo show ?thesis by simp
qed

lemma days_before_month_bound:
  assumes "1 \<le> m" "m \<le> 12" "1 \<le> d" "d \<le> days_in_month y m"
  shows "1 \<le> days_before_month y m + d \<and>
         days_before_month y m + d \<le> 365 + (if is_leap y then 1 else 0)"
proof -
  from assms(1,2) have "m = 1 \<or> m = 2 \<or> m = 3 \<or> m = 4 \<or> m = 5 \<or> m = 6 \<or> m = 7 \<or> m = 8
      \<or> m = 9 \<or> m = 10 \<or> m = 11 \<or> m = 12" by arith
  then show ?thesis
    using assms(3,4)
    by (elim disjE) (simp_all add: days_before_month_def days_in_month_def split: if_splits)
qed

lemma datetime_new_range:
  assumes "datetime_new y m d h mi = Inr T"
  shows "0 \<le> T \<and> T < MAX_ORDINAL * MINUTES_PER_DAY"
proof -
  from assms have r: "1 \<le> y" "y \<le> 9999" "1 \<le> m" "m \<le> 12" "1 \<le> d" "d \<le> days_in_month y m"
      "0 \<le> h" "h \<le> 23" "0 \<le> mi" "mi \<le> 59"
    and T: "T = (ymd2ord y m d - 1) * MINUTES_PER_DAY + h * 60 + mi"
    by (simp_all add: datetime_new_def split: if_splits)
  from days_before_year_bound [OF r(1,2)] have
    y0: "0 \<le> days_before_year y"
    and y1: "days_before_year y + 365 + (if is_leap y then 1 else 0) \<le> 3652059" by simp_all
  from days_before_month_bound [OF r(3-6)] have
    m0: "1 \<le> days_before_month y m + d"
    and m1: "days_before_month y m + d \<le> 365 + (if is_leap y then 1 else 0)" by simp_all
  from y0 m0 have lo: "1 \<le> ymd2ord y m d" by (simp add: ymd2ord_def)
  from y1 m1 have hi: "ymd2ord y m d \<le> 3652059" unfolding ymd2ord_def by linarith
  have a: "0 \<le> (ymd2ord y m d - 1) * 1440 + h * 60 + mi" using lo r(7,9) by (simp add: algebra_simps)
  have b: "(ymd2ord y m d - 1) * 1440 + h * 60 + mi < 3652059 * 1440" using hi r(8,10) by (simp add: algebra_simps)
  from a b show ?thesis by (simp add: T MAX_ORDINAL_def MINUTES_PER_DAY_def)
qed

lemma date_string_to_date_range:
  assumes "date_string_to_date ds = Inr (Some T)"
  shows "0 \<le> T \<and> T < MAX_ORDINAL * MINUTES_PER_DAY"
proof -
  from assms obtain y where y: "py_int (py_slice ds 0 4) = Inr y"
    by (cases "py_int (py_slice ds 0 4)") (simp_all add: date_string_to_date_def bind_err_def split: if_splits)
  from assms obtain m where m: "py_int (py_slice ds 5 7) = Inr m"
    by (cases "py_int (py_slice ds 5 7)") (simp_all add: date_string_to_date_def bind_err_def y split: if_splits)
  from assms obtain d where d: "py_int (py_slice ds 8 10) = Inr d"
    by (cases "py_int (py_slice ds 8 10)") (simp_all add: date_string_to_date_def bind_err_def y m split: if_splits)
  from assms obtain h where h: "py_int (py_slice ds 11 13) = Inr h"
    by (cases "py_int (py_slice ds 11 13)") (simp_all add: date_string_to_date_def bind_err_def y m d split: if_splits)
  from assms obtain mi where mi: "py_int (py_slice ds 13 15) = Inr mi"
    by (cases "py_int (py_slice ds 13 15)") (simp_all add: date_string_to_date_def bind_err_def y m d h split: if_splits)
  from assms have "datetime_new y m d h mi = Inr T"
    by (cases "datetime_new y m d h mi")
       (simp_all add: date_string_to_date_def bind_err_def y m d h mi split: if_splits)
  then show ?thesis by (rule datetime_new_range)
qed

lemma map_err_all: "(\<And>x. x \<in> set xs \<Longrightarrow> f x = Inr (g x)) \<Longrightarrow> map_err f xs = Inr (map g xs)"
  by (induction xs) simp_all

lemma image_dates_ok:
  assumes "0 \<le> T" and "T < MAX_ORDINAL * MINUTES_PER_DAY" and "10 * (n - 1) \<le> T"
  shows "map_err (\<lambda>i. datetime_sub_minutes T (10 * i)) (py_range n)
           = Inr (map (\<lambda>i. T - 10 * i) (py_range n))"
proof (rule map_err_all)
  fix i assume "i \<in> set (py_range n)"
  then have "0 \<le> i" "i \<le> n - 1" by (simp_all add: py_range_def)
  with assms show "datetime_sub_minutes T (10 * i) = Inr (T - 10 * i)"
    by (simp add: datetime_sub_minutes_def)
qed

lemma buoy_cam_requests_valid:
  assumes "buoy_cam ''id'' = Some (Some station_id)" and "buoy_cam ''name'' = Some nm"
    and "buoy_cam ''img'' = Some (Some img_filename)"
    and "extract_date_string img_filename = Some ds"
    and "date_string_to_date ds = Inr (Some T)"
    and "10 * (6 * W - 1) \<le> T"
  shows "buoy_cam_requests buoy_cam out W =
           Inr (map (\<lambda>i. \<lparr>req_id = station_id, tag = hd (py_split_char CHR ''_'' img_filename),
                           req_description = nm, date = T - 10 * i, output_root_dir = out\<rparr>)
                  (py_range (W * 6)))"
proof -
  from date_string_to_date_range [OF assms(5)] have r: "0 \<le> T" "T < MAX_ORDINAL * MINUTES_PER_DAY"
    by simp_all
  from assms(6) have "10 * (W * 6 - 1) \<le> T" by (simp add: mult.commute)
  from image_dates_ok [OF r this] assms(1-5) show ?thesis
    by (simp add: buoy_cam_requests_def comp_def)
qed

lemma generate_requests_loop_acc:
  "generate_requests_loop xs out W acc = map_sum id ((@) acc) (generate_requests_loop xs out W [])"
proof (induction xs arbitrary: acc)
  case Nil
  show ?case by simp
next
  case (Cons x xs)
  show ?case
  proof (cases "buoy_cam_requests x out W")
    case (Inl e)
    then show ?thesis by simp
  next
    case (Inr new)
    from Cons.IH [of "acc @ new"] Cons.IH [of new] Inr show ?thesis
      by (cases "generate_requests_loop xs out W []") simp_all
  qed
qed

lemma generate_requests_loop_append:
  "generate_requests_loop (xs @ ys) out W acc =
     (case generate_requests_loop xs out W acc of
        Inl e \<Rightarrow> Inl e
      | Inr a \<Rightarrow> generate_requests_loop ys out W a)"
  by (induction xs arbitrary: acc) (simp_all split: sum.splits)

lemma generate_requests_split:
  assumes "generate_requests earlier out W = Inr a"
    and "buoy_cam_requests buoy_cam out W = Inr new"
    and "generate_requests later out W = Inr b"
  shows "generate_requests (earlier @ buoy_cam # later) out W = Inr (a @ new @ b)"
proof -
  from assms(1) have 1: "generate_requests_loop earlier out W [] = Inr a"
    by (simp add: generate_requests_def)
  from assms(3) have 3: "generate_requests_loop later out W [] = Inr b"
    by (simp add: generate_requests_def)
  have "generate_requests_loop later out W (a @ new) = Inr ((a @ new) @ b)"
    by (subst generate_requests_loop_acc) (simp add: 3)
  with 1 assms(2) show ?thesis
    by (simp add: generate_requests_def generate_requests_loop_append)
qed

text \<open>\<^verbatim>\<open>int\<close> skips blanks around the digits but not the separators \<^verbatim>\<open>\x1c\<close> to
  \<^verbatim>\<open>\x1f\<close>, so a date field that holds one of them raises \<^verbatim>\<open>ValueError\<close>.\<close>

lemma py_int_whitespace:
  "py_int ([CHR 0x20] @ ''1'' @ [CHR 0x09]) = Inr 1"
  "py_int ([CHR 0x1F] @ ''1'') = Inl ValueError"
  "py_int (''1'' @ [CHR 0x1C]) = Inl ValueError"
  "date_string_to_date (''2024_'' @ [CHR 0x1F] @ ''1_01_1200'') = Inl ValueError"
  by code_simp+

text \<open>
  Claim C5, as amended. Take a listing entry that has an id, a name and an image filename
  whose embedded timestamp parses to \<open>T\<close>, and a window of \<open>W \<ge> 1\<close> hours such that the
  earliest timestamp of the window, \<open>T\<close> minus \<open>10 (6 W - 1)\<close> minutes, is not before
  \<^verbatim>\<open>datetime.min\<close> (the start of year 1). Suppose that the entries of the listing before
  it and those after it are processed without an exception, to the requests \<open>a\<close> and \<open>b\<close>.
  Then the generator returns \<open>a\<close>, then exactly \<open>6 W\<close> requests for that buoy, then \<open>b\<close>; the
  timestamp of the buoy's request at position \<open>i\<close> is \<open>T\<close> minus \<open>10 i\<close> minutes, so the first
  is \<open>T\<close> and each next one is exactly ten minutes earlier.
\<close>

theorem generate_requests_window:
  assumes "buoy_cam ''id'' = Some (Some station_id)" and "buoy_cam ''name'' = Some nm"
    and "buoy_cam ''img'' = Some (Some img_filename)"
    and "extract_date_string img_filename = Some ds"
    and "date_string_to_date ds = Inr (Some T)"
    and "1 \<le> W" and "10 * (6 * W - 1) \<le> T"
    and "generate_requests earlier out W = Inr a"
    and "generate_requests later out W = Inr b"
  shows "\<exists>new. generate_requests (earlier @ buoy_cam # later) out W = Inr (a @ new @ b)
           \<and> length new = nat (6 * W)
           \<and> (\<forall>i<length new. date (new ! i) = T - 10 * int i \<and> req_id (new ! i) = station_id)"
proof -
  let ?mk = "\<lambda>i. \<lparr>req_id = station_id, tag = hd (py_split_char CHR ''_'' img_filename),
                   req_description = nm, date = T - 10 * i, output_root_dir = out\<rparr>"
  let ?new = "map ?mk (py_range (W * 6))"
  have new: "buoy_cam_requests buoy_cam out W = Inr ?new"
    using assms(1-5,7) by (rule buoy_cam_requests_valid)
  have len: "length ?new = nat (6 * W)" by (simp add: py_range_def mult.commute)
  have nth: "\<forall>i<length ?new. date (?new ! i) = T - 10 * int i \<and> req_id (?new ! i) = station_id"
  proof (intro allI impI)
    fix i assume "i < length ?new"
    then have i: "i < length (py_range (W * 6))" by simp
    then have "py_range (W * 6) ! i = int i" by (simp add: py_range_def)
    with i show "date (?new ! i) = T - 10 * int i \<and> req_id (?new ! i) = station_id" by simp
  qed
  from generate_requests_split [OF assms(8) new assms(9)] len nth show ?thesis by blast
qed

theorem generate_requests_window_witness:
  "\<exists>new. generate_requests [example_entry] ''images'' 1 = Inr new \<and> length new = 6
      \<and> date (new ! 0) = 1063995120 \<and> date (new ! 1) = 1063995110 \<and> date (new ! 5) = 1063995070"
proof -
  have 1: "example_entry ''id'' = Some (Some ''41001'')" by (simp add: example_entry_def)
  have 2: "example_entry ''name'' = Some (Some ''EAST'')" by (simp add: example_entry_def)
  have 3: "example_entry ''img'' = Some (Some ''W64A_2024_01_01_1200.jpg'')"
    by (simp add: example_entry_def)
  have 4: "extract_date_string ''W64A_2024_01_01_1200.jpg'' = Some ''2024_01_01_1200''"
    by code_simp
  have 5: "date_string_to_date ''2024_01_01_1200'' = Inr (Some 1063995120)" by code_simp
  have 6: "(1::int) \<le> 1" by simp
  have 7: "10 * (6 * 1 - 1) \<le> (1063995120::int)" by simp
  have 8: "generate_requests [] ''images'' 1 = Inr []" by (simp add: generate_requests_def)
  from generate_requests_window [OF 1 2 3 4 5 6 7 8 8] obtain new where
    g: "generate_requests ([] @ example_entry # []) ''images'' 1 = Inr ([] @ new @ [])"
    and l: "length new = nat (6 * 1)"
    and d: "\<forall>i<length new. date (new ! i) = 1063995120 - 10 * int i \<and> req_id (new ! i) = ''41001''"
    by blast
  from l d have "date (new ! 0) = 1063995120" "date (new ! 1) = 1063995110"
    "date (new ! 5) = 1063995070" by simp_all
  with g l show ?thesis by simp
qed

text \<open>The claim as stated fails for a timestamp in the first hour of year 1: the filename
  \<^verbatim>\<open>W64A_0001_01_01_0000.jpg\<close> parses to \<^verbatim>\<open>datetime.min\<close>, and the subtraction of ten
  minutes raises \<^verbatim>\<open>OverflowError\<close>, so no request is produced.\<close>

theorem year_one_counterexample:
  "date_string_to_date ''0001_01_01_0000'' = Inr (Some 0)
   \<and> generate_requests [year_one_entry] ''images'' 1 = Inl OverflowError"
  by code_simp

text \<open>
  Claim C7 says that an entry whose filename has no parseable timestamp is skipped and
  the remaining entries are processed. \<^verbatim>\<open>date_string_to_date\<close> returns \<^verbatim>\<open>None\<close> only for a
  date portion that is not 15 characters long; for the filename
  \<^verbatim>\<open>W64A_2024_AB_01_1200.jpg\<close> the call \<^verbatim>\<open>int("AB")\<close> raises \<^verbatim>\<open>ValueError\<close>, which leaves
  \<^verbatim>\<open>generate_requests\<close>: the entry is not skipped, and the valid entry after it yields no
  request.
\<close>

theorem generate_requests_bad_date:
  "extract_date_string ''W64A_2024_AB_01_1200.jpg'' = Some ''2024_AB_01_1200''
   \<and> date_string_to_date ''2024_AB_01_1200'' = Inl ValueError
   \<and> generate_requests [bad_date_entry, example_entry] ''images'' 1 = Inl ValueError"
  by code_simp

subsection \<open>The filter of the orchestrator\<close>

text \<open>What the loop does: it raises \<^verbatim>\<open>KeyError\<close> at the first request whose station is
  not in the map, and otherwise appends every request.\<close>

lemma filter_requests_result:
  "filter_requests lookup requests acc =
     (if \<forall>ir\<in>set requests. lookup (Some (req_id ir)) \<noteq> None then Inr (acc @ requests)
      else Inl KeyError)"
  by (induction requests arbitrary: acc) (auto split: option.splits)

text \<open>
  Claim C1 says that the requests of a buoy without observation data are dropped and that
  the filtering never raises. The loop has no \<^verbatim>\<open>continue\<close> after its warnings: for a
  request whose station id is not in the map, \<^verbatim>\<open>buoy_data_lookup[ir.id]\<close> raises
  \<^verbatim>\<open>KeyError\<close>; and the request of a station that is in the map with an empty observation
  store is kept.
\<close>

theorem filter_requests_missing_station:
  "filter_requests Map.empty [example_request] [] = Inl KeyError
   \<and> filter_requests [Some ''41001'' \<mapsto> new_BuoyData (Some ''41001'')] [example_request] []
       = Inr [example_request]"
  by (simp add: example_request_def)

subsection \<open>The observation file\<close>

text \<open>
  Claim C8 says that every line of the file is a key, a single space and the value. The
  line for the wave height is written with a colon after the key,
  \<^verbatim>\<open>wave_height_m: None\<close>, where every other line has the key alone. The keys come in the
  order the claim gives, and an absent value is printed as \<^verbatim>\<open>None\<close>. Here is the file
  for an observation with a wind speed and nothing else, without coordinates and bearing.
\<close>

theorem observation_file_text:
  "get_observation_str_for_file (\<lambda>x. ''19.4384'') ''41001'' (Some ''EAST'') None None
     example_observation None
   = ''id 41001'' @ [CHR 0x0A]
     @ ''description EAST'' @ [CHR 0x0A]
     @ ''timestamp 2024_01_01_1200'' @ [CHR 0x0A]
     @ ''lat_deg None'' @ [CHR 0x0A]
     @ ''lon_deg None'' @ [CHR 0x0A]
     @ ''first_image_bearing_deg None'' @ [CHR 0x0A]
     @ ''wind_speed_kts 19.4384'' @ [CHR 0x0A]
     @ ''wind_direction_deg None'' @ [CHR 0x0A]
     @ ''gust_speed_kts None'' @ [CHR 0x0A]
     @ ''wave_height_m: None'' @ [CHR 0x0A]
     @ ''dominant_wave_period_s None'' @ [CHR 0x0A]
     @ ''average_wave_period_s None'' @ [CHR 0x0A]
     @ ''mean_wave_direction_deg None'' @ [CHR 0x0A]
     @ ''atmospheric_pressure_hpa None'' @ [CHR 0x0A]
     @ ''air_temperature_c None'' @ [CHR 0x0A]
     @ ''water_temperature_c None'' @ [CHR 0x0A]
     @ ''dewpoint_temperature_c None'' @ [CHR 0x0A]
     @ ''visibility_m None'' @ [CHR 0x0A]
     @ ''pressure_tendency_hpa None'' @ [CHR 0x0A]
     @ ''tide_m None'' @ [CHR 0x0A]"
  by (simp add: get_observation_str_for_file_def example_observation_def str_opt_def)

subsection \<open>The image fetch\<close>

lemma fetch_other_status:
  "http_get w (url request) = Inr response \<Longrightarrow> status_code response \<noteq> 200 \<Longrightarrow>
   fetch_and_process_image w request buoy_data output_dir ocr_reader fs = (Inr False, fs)"
  by (simp add: fetch_and_process_image_def get_image_file_def)

text \<open>
  Claim C2, as amended. When the HTTP fetch of the composite image answers with a status
  other than 200, \<^verbatim>\<open>fetch_and_process_image\<close> returns \<^verbatim>\<open>False\<close>, raises nothing and
  leaves the file system as it was.
\<close>

theorem fetch_non_success_status:
  assumes "http_get w (url request) = Inr response" and "status_code response \<noteq> 200"
  shows "fetch_and_process_image w request buoy_data output_dir ocr_reader fs = (Inr False, fs)"
  using assms by (simp add: fetch_and_process_image_def get_image_file_def)

theorem fetch_non_success_status_witness:
  "fetch_and_process_image not_found_world example_request (new_BuoyData (Some ''41001''))
     (StrArg ''images'') None empty_fs = (Inr False, empty_fs)"
proof -
  have 1: "http_get not_found_world (url example_request)
      = Inr \<lparr>status_code = 404, body_text = [], body_content = []\<rparr>"
    by (simp add: not_found_world_def)
  have 2: "status_code \<lparr>status_code = 404, body_text = [], body_content = []\<rparr> \<noteq> 200" by simp
  from fetch_non_success_status [OF 1 2] show ?thesis .
qed

text \<open>The claim as stated fails for a body that is not an image: with status 200,
  \<^verbatim>\<open>get_image_file\<close> calls \<^verbatim>\<open>Image.open\<close> outside any handler, and the exception of the
  decoder leaves \<^verbatim>\<open>fetch_and_process_image\<close>.\<close>

theorem undecodable_body_counterexample:
  "fetch_and_process_image garbled_world example_request (new_BuoyData (Some ''41001''))
     (StrArg ''images'') None empty_fs = (Inl UnidentifiedImageError, empty_fs)"
  by (simp add: fetch_and_process_image_def get_image_file_def garbled_world_def)

subsection \<open>The bearing in the pipeline\<close>

lemma save_sub_images_text:
  "files (snd (save_sub_images request ips fs)) p = Some (TextFile s) \<Longrightarrow>
   files fs p = Some (TextFile s)"
proof (induction ips arbitrary: fs)
  case Nil
  then show ?case by simp
next
  case (Cons a ips)
  obtain j sub where a: "a = (j, sub)" by (cases a)
  show ?case
  proof (cases "fraction_black sub")
    case (Inl e)
    with Cons.prems a show ?thesis by simp
  next
    case (Inr v)
    show ?thesis
    proof (cases "v > FRACTION_BLACK_THRESHOLD")
      case True
      with Cons.prems a Inr have
        "files (snd (save_sub_images request ips fs)) p = Some (TextFile s)" by simp
      then show ?thesis by (rule Cons.IH)
    next
      case False
      with Cons.prems a Inr have
        "files (snd (save_sub_images request ips
            (save_file (save_image_full_path request (str_nat j)) (ImageFile sub) fs))) p
          = Some (TextFile s)" by simp
      then have "files (save_file (save_image_full_path request (str_nat j)) (ImageFile sub) fs) p
          = Some (TextFile s)" by (rule Cons.IH)
      then show ?thesis by (simp add: save_file_def split: if_splits)
    qed
  qed
qed

lemma fetch_default_reader_text:
  assumes "files (snd (fetch_and_process_image w request buoy_data output_dir None fs)) p
             = Some (TextFile s)"
  shows "files fs p = Some (TextFile s) \<or> bearing_absent w s"
proof (cases "get_image_file w (url request)")
  case (Inl e)
  with assms show ?thesis by (simp add: fetch_and_process_image_def)
next
  case (Inr r)
  show ?thesis
  proof (cases r)
    case None
    with Inr assms show ?thesis by (simp add: fetch_and_process_image_def)
  next
    case (Some img)
    show ?thesis
    proof (cases "width img \<noteq> IMAGE_WIDTH \<or> height img \<noteq> IMAGE_HEIGHT")
      case True
      with Inr Some assms show ?thesis by (simp add: fetch_and_process_image_def)
    next
      case False
      define fs2 where "fs2 = save_file (save_image_full_path request ''full'') (ImageFile img)
          (makedirs (save_directory request) fs)"
      obtain r3 fs3 where loop: "save_sub_images request (enumerate 0 (split_image img)) fs2 = (r3, fs3)"
        by (cases "save_sub_images request (enumerate 0 (split_image img)) fs2")
      have fs3: "\<And>t. files fs3 p = Some (TextFile t) \<Longrightarrow> files fs p = Some (TextFile t)"
      proof -
        fix t assume "files fs3 p = Some (TextFile t)"
        with loop have "files (snd (save_sub_images request (enumerate 0 (split_image img)) fs2)) p
            = Some (TextFile t)" by simp
        then have "files fs2 p = Some (TextFile t)" by (rule save_sub_images_text)
        then show "files fs p = Some (TextFile t)"
          by (simp add: fs2_def save_file_def makedirs_def split: if_splits)
      qed
      show ?thesis
      proof (cases r3)
        case (Inl e)
        with Inr Some False loop assms have "files fs3 p = Some (TextFile s)"
          by (simp add: fetch_and_process_image_def Let_def fs2_def)
        then show ?thesis by (simp add: fs3)
      next
        case ok: (Inr u)
        show ?thesis
        proof (cases "get_observation buoy_data (date_string request)")
          case None
          with Inr Some False loop ok assms have "files fs3 p = Some (TextFile s)"
            by (simp add: fetch_and_process_image_def Let_def fs2_def)
          then show ?thesis by (simp add: fs3)
        next
          case obs: (Some observation)
          with Inr Some False loop ok assms have
            "files (save_file (save_directory request @ ''/observation.txt'')
                (TextFile (get_observation_str_for_file (float_str w) (req_id request)
                   (bd_description buoy_data) (lat_deg buoy_data) (lon_deg buoy_data)
                   observation None)) fs3) p = Some (TextFile s)"
            by (simp add: fetch_and_process_image_def Let_def fs2_def)
          then have "files fs3 p = Some (TextFile s) \<or>
              s = get_observation_str_for_file (float_str w) (req_id request)
                   (bd_description buoy_data) (lat_deg buoy_data) (lon_deg buoy_data)
                   observation None"
            by (auto simp: save_file_def split: if_splits)
          then show ?thesis
          proof
            assume "files fs3 p = Some (TextFile s)"
            then show ?thesis by (simp add: fs3)
          next
            assume "s = get_observation_str_for_file (float_str w) (req_id request)
                   (bd_description buoy_data) (lat_deg buoy_data) (lon_deg buoy_data)
                   observation None"
            then have "bearing_absent w s" unfolding bearing_absent_def by blast
            then show ?thesis ..
          qed
        qed
      qed
    qed
  qed
qed

lemma run_tasks_text:
  "files (snd (run_tasks w ocr_reader tasks fs)) p = Some (TextFile s) \<Longrightarrow>
   files fs p = Some (TextFile s) \<or> bearing_absent w s"
proof (induction tasks arbitrary: fs)
  case Nil
  then show ?case by simp
next
  case (Cons a tasks)
  obtain request buoy_data where a: "a = (request, buoy_data)" by (cases a)
  obtain r fs1 where f: "fetch_and_process_image w request buoy_data (OCRArg ocr_reader) None fs = (r, fs1)"
    by (cases "fetch_and_process_image w request buoy_data (OCRArg ocr_reader) None fs")
  from Cons.prems a f have "files (snd (run_tasks w ocr_reader tasks fs1)) p = Some (TextFile s)"
    by (simp split: prod.splits)
  from Cons.IH [OF this] have "files fs1 p = Some (TextFile s) \<or> bearing_absent w s" .
  then show ?case
  proof
    assume "files fs1 p = Some (TextFile s)"
    with f have "files (snd (fetch_and_process_image w request buoy_data (OCRArg ocr_reader) None fs)) p
        = Some (TextFile s)" by simp
    then show ?thesis by (rule fetch_default_reader_text)
  next
    assume "bearing_absent w s"
    then show ?thesis ..
  qed
qed

lemma image_phase_text:
  "files (snd (image_phase w lookup ocr_reader requests fs)) p = Some (TextFile s) \<Longrightarrow>
   files fs p = Some (TextFile s) \<or> bearing_absent w s"
proof -
  assume a: "files (snd (image_phase w lookup ocr_reader requests fs)) p = Some (TextFile s)"
  obtain tasks e where t: "submit_tasks lookup requests = (tasks, e)"
    by (cases "submit_tasks lookup requests")
  from a t have "files (snd (run_tasks w ocr_reader tasks fs)) p = Some (TextFile s)"
    by (simp add: image_phase_def split: prod.splits option.splits)
  then show ?thesis by (rule run_tasks_text)
qed

text \<open>The text rendered for the angle \<^verbatim>\<open>None\<close> has, after its first five lines, the
  line \<^verbatim>\<open>first_image_bearing_deg None\<close>.\<close>

lemma bearing_line_None:
  "\<exists>pre post.
     get_observation_str_for_file fstr station_id description lat lon observation None
       = pre @ ''first_image_bearing_deg None'' @ [CHR 0x0A] @ post
     \<and> pre \<noteq> [] \<and> last pre = CHR 0x0A"
proof -
  let ?pre = "''id '' @ station_id @ [CHR 0x0A]
     @ ''description '' @ str_opt id description @ [CHR 0x0A]
     @ ''timestamp '' @ timestamp observation @ [CHR 0x0A]
     @ ''lat_deg '' @ str_opt fstr lat @ [CHR 0x0A]
     @ ''lon_deg '' @ str_opt fstr lon @ [CHR 0x0A]"
  let ?post = "''wind_speed_kts '' @ str_opt fstr (wind_speed_kts observation) @ [CHR 0x0A]
     @ ''wind_direction_deg '' @ str_opt fstr (wind_direction_deg observation) @ [CHR 0x0A]
     @ ''gust_speed_kts '' @ str_opt fstr (gust_speed_kts observation) @ [CHR 0x0A]
     @ ''wave_height_m: '' @ str_opt fstr (wave_height_m observation) @ [CHR 0x0A]
     @ ''dominant_wave_period_s '' @ str_opt fstr (dominant_wave_period_s observation) @ [CHR 0x0A]
     @ ''average_wave_period_s '' @ str_opt fstr (average_wave_period_s observation) @ [CHR 0x0A]
     @ ''mean_wave_direction_deg '' @ str_opt fstr (mean_wave_direction_deg observation) @ [CHR 0x0A]
     @ ''atmospheric_pressure_hpa '' @ str_opt fstr (atmospheric_pressure_hpa observation) @ [CHR 0x0A]
     @ ''air_temperature_c '' @ str_opt fstr (air_temperature_c observation) @ [CHR 0x0A]
     @ ''water_temperature_c '' @ str_opt fstr (water_temperature_c observation) @ [CHR 0x0A]
     @ ''dewpoint_temperature_c '' @ str_opt fstr (dewpoint_temperature_c observation) @ [CHR 0x0A]
     @ ''visibility_m '' @ str_opt fstr (visibility_m observation) @ [CHR 0x0A]
     @ ''pressure_tendency_hpa '' @ str_opt fstr (pressure_tendency_hpa observation) @ [CHR 0x0A]
     @ ''tide_m '' @ str_opt fstr (tide_m observation) @ [CHR 0x0A]"
  have "get_observation_str_for_file fstr station_id description lat lon observation None
      = ?pre @ ''first_image_bearing_deg None'' @ [CHR 0x0A] @ ?post"
    by (simp add: get_observation_str_for_file_def str_opt_def)
  moreover have "?pre \<noteq> []" by simp
  moreover have "last ?pre = CHR 0x0A" by simp
  ultimately show ?thesis by blast
qed

text \<open>
  Claim C10. \<^verbatim>\<open>main\<close> calls \<^verbatim>\<open>fetch_and_process_image\<close> with the recogniser in the place
  of \<^verbatim>\<open>output_dir\<close> and with \<^verbatim>\<open>ocr_reader\<close> at its default \<^verbatim>\<open>None\<close> (see \<open>run_tasks\<close>), so
  no bearing is extracted: every text file that a run of \<^verbatim>\<open>main\<close> writes, that is every
  \<^verbatim>\<open>observation.txt\<close>, is the text that \<open>get_observation_str_for_file\<close> gives for the angle
  \<^verbatim>\<open>None\<close>, and this text has the line \<^verbatim>\<open>first_image_bearing_deg None\<close>: the bearing is
  recorded as absent.
\<close>

theorem main_bearing_absent:
  assumes "files (snd (main w ocr_reader buoy_cam_list output hours fs)) p = Some (TextFile s)"
    and "files fs p \<noteq> Some (TextFile s)"
  shows "(\<exists>station_id description lat lon observation.
            s = get_observation_str_for_file (float_str w) station_id description lat lon
                  observation None)
         \<and> (\<exists>pre post. s = pre @ ''first_image_bearing_deg None'' @ [CHR 0x0A] @ post
               \<and> pre \<noteq> [] \<and> last pre = CHR 0x0A)"
proof -
  have "files fs p = Some (TextFile s) \<or> bearing_absent w s"
  proof (cases "observation_phase w buoy_cam_list Map.empty")
    case (Inl e)
    with assms(1) show ?thesis by (simp add: main_def)
  next
    case lookup: (Inr lookup)
    show ?thesis
    proof (cases "generate_requests buoy_cam_list output hours")
      case (Inl e)
      with lookup assms(1) show ?thesis by (simp add: main_def)
    next
      case reqs: (Inr image_requests)
      show ?thesis
      proof (cases "filter_requests lookup image_requests []")
        case (Inl e)
        with lookup reqs assms(1) show ?thesis by (simp add: main_def)
      next
        case (Inr filtered_requests)
        with lookup reqs assms(1) have
          "files (snd (image_phase w lookup ocr_reader filtered_requests fs)) p = Some (TextFile s)"
          by (simp add: main_def)
        then show ?thesis by (rule image_phase_text)
      qed
    qed
  qed
  with assms(2) have "bearing_absent w s" by simp
  then obtain station_id description lat lon observation where
    s: "s = get_observation_str_for_file (float_str w) station_id description lat lon
          observation None"
    unfolding bearing_absent_def by blast
  from bearing_line_None [of "float_str w" station_id description lat lon observation]
  have "\<exists>pre post. s = pre @ ''first_image_bearing_deg None'' @ [CHR 0x0A] @ post
      \<and> pre \<noteq> [] \<and> last pre = CHR 0x0A"
    unfolding s .
  with s show ?thesis by blast
qed

lemma fetch_writes_observation:
  assumes "get_image_file w (url request) = Inr (Some img)"
    and "width img = IMAGE_WIDTH" and "height img = IMAGE_HEIGHT"
    and "get_observation buoy_data (date_string request) = Some observation"
  shows "files (snd (fetch_and_process_image w request buoy_data output_dir None fs))
           (save_directory request @ ''/observation.txt'')
         = Some (TextFile (get_observation_str_for_file (float_str w) (req_id request)
              (bd_description buoy_data) (lat_deg buoy_data) (lon_deg buoy_data)
              observation None))"
proof -
  define fs2 where "fs2 = save_file (save_image_full_path request ''full'') (ImageFile img)
          (makedirs (save_directory request) fs)"
  have "fst (save_sub_images request (enumerate 0 (split_image img)) fs2) = Inr ()"
    using split_image_sizes by (rule save_sub_images_ok)
  then obtain fs3 where "save_sub_images request (enumerate 0 (split_image img)) fs2 = (Inr (), fs3)"
    by (cases "save_sub_images request (enumerate 0 (split_image img)) fs2") simp
  with assms show ?thesis
    by (simp add: fetch_and_process_image_def Let_def fs2_def save_file_def)
qed

lemma image_phase_fs:
  "snd (image_phase w lookup ocr_reader requests fs)
     = snd (run_tasks w ocr_reader (fst (submit_tasks lookup requests)) fs)"
  by (simp add: image_phase_def split: prod.splits option.splits)

lemma example_table_data:
  "get_observation_data example_world (Some ''41001'')
     = Inr (Some (example_store\<lparr>bd_description := Some []\<rparr>))"
  by (simp add: get_observation_data_def example_world_def OBSERVATION_URL_def str_opt_def
      extract_table_data_def example_table_def py_split_char_def py_split_ws_def is_space_def
      enumerate_eq_zip table_row_to_observation_def get_float_def bind_err_def float_ten_def
      mps_to_kts_def MISSING_DATA_INDICATOR_def new_BuoyData_def add_observation_def
      example_observation_def example_store_def)

lemma example_lookup:
  "observation_phase example_world [example_entry] Map.empty = Inr [Some ''41001'' \<mapsto> example_store]"
  by (simp add: example_table_data example_entry_def listing_float_def example_store_def)

lemma example_requests:
  "generate_requests [example_entry] ''images'' 1 = Inr (map earlier_request [0, 1, 2, 3, 4, 5])"
  by code_simp

lemma example_urls:
  "url (earlier_request 0) = ''https://www.ndbc.noaa.gov/images/buoycam/W64A_2024_01_01_1200.jpg''"
  "url (earlier_request 1) = ''https://www.ndbc.noaa.gov/images/buoycam/W64A_2024_01_01_1150.jpg''"
  "url (earlier_request 2) = ''https://www.ndbc.noaa.gov/images/buoycam/W64A_2024_01_01_1140.jpg''"
  "url (earlier_request 3) = ''https://www.ndbc.noaa.gov/images/buoycam/W64A_2024_01_01_1130.jpg''"
  "url (earlier_request 4) = ''https://www.ndbc.noaa.gov/images/buoycam/W64A_2024_01_01_1120.jpg''"
  "url (earlier_request 5) = ''https://www.ndbc.noaa.gov/images/buoycam/W64A_2024_01_01_1110.jpg''"
  by code_simp+

lemma example_first_paths:
  "date_string (earlier_request 0) = ''2024_01_01_1200''"
  "save_directory (earlier_request 0) = ''images/41001/2024_01_01_1200''"
  by code_simp+

lemma example_not_found:
  "k \<in> {1, 2, 3, 4, 5} \<Longrightarrow>
   fetch_and_process_image example_world (earlier_request k) buoy_data output_dir ocr_reader fs
     = (Inr False, fs)"
  by (rule fetch_other_status [where response = "\<lparr>status_code = 404, body_text = [], body_content = []\<rparr>"])
     (auto simp: example_urls example_world_def)

lemma example_first_fetch:
  "files (snd (fetch_and_process_image example_world (earlier_request 0) example_store
       output_dir None fs)) ''images/41001/2024_01_01_1200/observation.txt''
   = Some (TextFile (get_observation_str_for_file (\<lambda>x. ''19.4384'') ''41001'' (Some ''EAST'')
        None None example_observation None))"
proof -
  have 1: "get_image_file example_world (url (earlier_request 0)) = Inr (Some white_image)"
    by (simp add: get_image_file_def example_urls example_world_def)
  have 2: "width white_image = IMAGE_WIDTH" "height white_image = IMAGE_HEIGHT"
    by (simp_all add: white_image_def IMAGE_WIDTH_def IMAGE_HEIGHT_def)
  have 3: "get_observation example_store (date_string (earlier_request 0)) = Some example_observation"
    by (simp add: example_first_paths get_observation_def has_observation_def example_store_def)
  have 4: "float_str example_world = (\<lambda>x. ''19.4384'')" by (simp add: example_world_def)
  have 5: "bd_description example_store = Some ''EAST''" "lat_deg example_store = None"
    "lon_deg example_store = None" by (simp_all add: example_store_def)
  have 6: "req_id (earlier_request 0) = ''41001''"
    by (simp add: earlier_request_def example_request_def)
  from fetch_writes_observation [OF 1 2 3, of output_dir fs] show ?thesis
    by (simp add: example_first_paths 4 5 6)
qed

lemma example_main_file:
  "files (snd (main example_world example_ocr [example_entry] ''images'' 1 empty_fs))
     ''images/41001/2024_01_01_1200/observation.txt''
   = Some (TextFile (get_observation_str_for_file (\<lambda>x. ''19.4384'') ''41001'' (Some ''EAST'')
        None None example_observation None))"
proof -
  let ?lookup = "[Some ''41001'' \<mapsto> example_store]"
  let ?reqs = "map earlier_request [0, 1, 2, 3, 4, 5]"
  have ids: "\<And>k. req_id (earlier_request k) = ''41001''"
    by (simp add: earlier_request_def example_request_def)
  have filtered: "filter_requests ?lookup ?reqs [] = Inr ?reqs"
    by (simp add: filter_requests_result ids)
  have tasks: "submit_tasks ?lookup ?reqs = (map (\<lambda>r. (r, example_store)) ?reqs, None)"
    by (simp add: ids)
  obtain r fs1 where first: "fetch_and_process_image example_world (earlier_request 0) example_store
       (OCRArg example_ocr) None empty_fs = (r, fs1)"
    by (cases "fetch_and_process_image example_world (earlier_request 0) example_store
       (OCRArg example_ocr) None empty_fs")
  have run: "snd (run_tasks example_world example_ocr (map (\<lambda>r. (r, example_store)) ?reqs) empty_fs)
      = fs1"
    by (simp add: first example_not_found)
  have m: "main example_world example_ocr [example_entry] ''images'' 1 empty_fs
      = image_phase example_world ?lookup example_ocr ?reqs empty_fs"
    by (simp only: main_def example_lookup example_requests filtered sum.case)
  have "snd (image_phase example_world ?lookup example_ocr ?reqs empty_fs)
      = snd (run_tasks example_world example_ocr (fst (submit_tasks ?lookup ?reqs)) empty_fs)"
    by (rule image_phase_fs)
  also have "\<dots> = fs1" by (simp only: tasks fst_conv run)
  finally have "snd (main example_world example_ocr [example_entry] ''images'' 1 empty_fs) = fs1"
    by (simp only: m)
  moreover from example_first_fetch [of "OCRArg example_ocr" empty_fs] first
  have "files fs1 ''images/41001/2024_01_01_1200/observation.txt''
      = Some (TextFile (get_observation_str_for_file (\<lambda>x. ''19.4384'') ''41001'' (Some ''EAST'')
        None None example_observation None))" by simp
  ultimately show ?thesis by simp
qed

theorem main_bearing_absent_witness:
  "\<exists>s pre post.
     files (snd (main example_world example_ocr [example_entry] ''images'' 1 empty_fs))
       ''images/41001/2024_01_01_1200/observation.txt'' = Some (TextFile s)
     \<and> s = pre @ ''first_image_bearing_deg None'' @ [CHR 0x0A] @ post
     \<and> pre \<noteq> [] \<and> last pre = CHR 0x0A"
proof -
  let ?s = "get_observation_str_for_file (\<lambda>x. ''19.4384'') ''41001'' (Some ''EAST'')
        None None example_observation None"
  have written: "files (snd (main example_world example_ocr [example_entry] ''images'' 1 empty_fs))
     ''images/41001/2024_01_01_1200/observation.txt'' = Some (TextFile ?s)"
    by (rule example_main_file)
  have fresh: "files empty_fs ''images/41001/2024_01_01_1200/observation.txt'' \<noteq> Some (TextFile ?s)"
    by (simp add: empty_fs_def)
  from main_bearing_absent [OF written fresh] obtain pre post
    where "?s = pre @ ''first_image_bearing_deg None'' @ [CHR 0x0A] @ post"
      and "pre \<noteq> []" and "last pre = CHR 0x0A" by blast
  with written show ?thesis by blast
qed
end
